theory Spec2Isabelle
  imports Complex_Main
begin

section \<open>Python values the generator and the harness work with\<close>

text \<open>
  Python's \<open>float\<close> is modelled by \<open>real\<close> (exact arithmetic), Python's \<open>int\<close> by
  \<open>nat\<close> for identifiers and counters and by \<open>int\<close> elsewhere. A \<open>datetime\<close> at
  midnight and the ISO date string rendered from it are both modelled by the proleptic
  Gregorian ordinal of the day (an \<open>int\<close>): \<open>.date().isoformat()\<close> is injective and
  order preserving on the years the generator produces, so comparisons of the rendered
  dates are comparisons of ordinals. The closed sets of string constants of the source
  (lines of business, statuses, transaction types, source systems) are datatypes with one
  constructor per string.
\<close>

datatype py_error = IndexError | ValueError | TypeError | KeyError | OtherError

subsection \<open>The random source\<close>

text \<open>
  The module-level generator of \<open>random\<close> is an infinite tape of raw draws and the
  number of draws made so far; each call of the library reads the tape at the cursor and
  advances it. Every value the library call can return is the image of some raw draw, so
  a statement proved for every tape covers every run, the run from \<open>SEED = 42\<close>
  included.
\<close>

type_synonym rng = "(nat \<Rightarrow> nat) \<times> nat"

definition next_raw :: "rng \<Rightarrow> nat \<times> rng" where
  "next_raw g = (fst g (snd g), (fst g, snd g + 1))"

text \<open>\<open>random.randint(a, b)\<close>; every call site of the source has \<open>a \<le> b\<close>.\<close>

definition randint :: "int \<Rightarrow> int \<Rightarrow> rng \<Rightarrow> int \<times> rng" where
  "randint a b g = (case next_raw g of (r, g') \<Rightarrow> (a + int (r mod nat (b - a + 1)), g'))"

text \<open>\<open>random.random()\<close>: a multiple of \<open>2 ^ -53\<close> in \<open>[0, 1)\<close>.\<close>

definition random :: "rng \<Rightarrow> real \<times> rng" where
  "random g = (case next_raw g of (r, g') \<Rightarrow> (real (r mod 2 ^ 53) / 2 ^ 53, g'))"

text \<open>\<open>random.uniform(a, b)\<close> is \<open>a + (b - a) * random()\<close>.\<close>

definition uniform :: "real \<Rightarrow> real \<Rightarrow> rng \<Rightarrow> real \<times> rng" where
  "uniform a b g = (case random g of (x, g') \<Rightarrow> (a + (b - a) * x, g'))"

text \<open>
  \<open>random.choice(seq)\<close> on a non-empty sequence. On an empty sequence the library raises
  \<open>IndexError\<close>; the callers below that can pass an empty list test for it first.
\<close>

definition choice :: "'a list \<Rightarrow> rng \<Rightarrow> 'a \<times> rng" where
  "choice xs g = (case next_raw g of (r, g') \<Rightarrow> (xs ! (r mod length xs), g'))"

text \<open>\<open>round(x, n)\<close> of a float: to the nearest multiple of \<open>10 ^ -n\<close>, ties to even.\<close>

definition round_half_even :: "real \<Rightarrow> int" where
  "round_half_even x =
     (let f = \<lfloor>x\<rfloor>; d = x - of_int f
      in if d < 1 / 2 then f else if 1 / 2 < d then f + 1
         else if even f then f else f + 1)"

definition py_round :: "real \<Rightarrow> nat \<Rightarrow> real" where
  "py_round x n = of_int (round_half_even (x * 10 ^ n)) / 10 ^ n"

subsection \<open>Dates\<close>

text \<open>
  \<open>datetime(y, 1, 1)\<close> and \<open>datetime(y, 12, 31)\<close> as ordinals, after the
  \<open>_days_before_year\<close> of the \<open>datetime\<close> module.
\<close>

definition days_before_year :: "int \<Rightarrow> int" where
  "days_before_year year =
     (let y = year - 1 in y * 365 + y div 4 - y div 100 + y div 400)"

definition jan_first :: "int \<Rightarrow> int" where
  "jan_first year = days_before_year year + 1"

definition dec_last :: "int \<Rightarrow> int" where
  "dec_last year = days_before_year (year + 1)"

definition rand_date :: "int \<Rightarrow> int \<Rightarrow> rng \<Rightarrow> int \<times> rng" where
  "rand_date start_year end_year g =
     (let s = jan_first start_year;
          e = dec_last end_year;
          delta = e - s;
          (k, g) = randint 0 delta g
      in (s + k, g))"

text \<open>
  \<open>rand_ts(base_date)\<close> adds hours, minutes and seconds to a midnight \<open>datetime\<close>;
  the result is the pair of the day and the second within the day.
\<close>

definition rand_ts :: "int \<Rightarrow> rng \<Rightarrow> (int \<times> int) \<times> rng" where
  "rand_ts base_date g =
     (let (h, g) = randint 0 23 g;
          (m, g) = randint 0 59 g;
          (s, g) = randint 0 59 g
      in ((base_date, h * 3600 + m * 60 + s), g))"

definition rand_premium :: "rng \<Rightarrow> real \<times> rng" where
  "rand_premium g = (let (x, g) = uniform 200 25000 g in (py_round x 2, g))"

text \<open>
  \<open>maybe_null(value, null_pct)\<close>; the argument \<open>value\<close> is evaluated by the caller
  before the draw of \<open>maybe_null\<close>.
\<close>

definition maybe_null :: "'a \<Rightarrow> real \<Rightarrow> rng \<Rightarrow> 'a option \<times> rng" where
  "maybe_null v null_pct g =
     (let (x, g) = random g in (if x < null_pct then None else Some v, g))"

subsection \<open>Configuration\<close>

record config =
  NUM_POLICIES :: nat
  NUM_COVERAGES :: nat
  NUM_CLAIMS :: nat
  NUM_CLAIM_TRANSACTIONS :: nat
  NUM_QUOTES :: nat
  NUM_PREMIUM_TRANSACTIONS :: nat

text \<open>The constants of the module; the theorems hold for every configuration.\<close>

definition module_config :: config where
  "module_config = \<lparr> NUM_POLICIES = 5000, NUM_COVERAGES = 12000, NUM_CLAIMS = 3000,
     NUM_CLAIM_TRANSACTIONS = 15000, NUM_QUOTES = 8000,
     NUM_PREMIUM_TRANSACTIONS = 20000 \<rparr>"

datatype lob = HO | AUTO | CGL | WC | BOP | CPP | FARM | IM

definition LOB_CODES :: "lob list" where
  "LOB_CODES = [HO, AUTO, CGL, WC, BOP, CPP, FARM, IM]"

datatype policy_status = ACTIVE | CANCELLED | EXPIRED | NON_RENEWED | PENDING

definition POLICY_STATUSES :: "policy_status list" where
  "POLICY_STATUSES = [ACTIVE, CANCELLED, EXPIRED, NON_RENEWED, PENDING]"

datatype source_system = LEGACY_AS400 | GUIDEWIRE_PC | DUCK_CREEK | MANUAL_ENTRY | BROKER_FEED

definition SOURCE_SYSTEMS :: "source_system list" where
  "SOURCE_SYSTEMS = [LEGACY_AS400, GUIDEWIRE_PC, DUCK_CREEK, MANUAL_ENTRY, BROKER_FEED]"

datatype cancel_reason = NON_PAY | INSURED_REQ | UW_ACTION | REWRITE

datatype product_tier = STD | PREM | BASIC

section \<open>Versioned policies\<close>

text \<open>
  Of an insured and an agent the policy generator reads the identifier and the state;
  the state is one of the fifty codes of \<open>STATES\<close>, kept as a string.
\<close>

record insured =
  insured_id :: nat
  insured_state :: string

record agent =
  agent_id :: nat

text \<open>
  A policy-version row. \<open>policy_number\<close>, \<open>lob_description\<close>, \<open>product_code\<close> and
  \<open>territory_code\<close> are renderings of the fields \<open>p_line_of_business\<close>,
  \<open>p_policy_id\<close>, \<open>p_product_tier\<close> and \<open>p_territory\<close>; \<open>created_at\<close> and
  \<open>updated_at\<close> repeat \<open>p_system_entry_date\<close> and \<open>p_valid_from\<close>.
\<close>

record policy =
  p_row_id :: nat
  p_policy_id :: nat
  p_version_number :: nat
  p_insured_id :: nat
  p_agent_id :: nat
  p_line_of_business :: lob
  p_product_tier :: product_tier
  p_effective_date :: int
  p_expiration_date :: int
  p_binding_date :: int
  p_issue_date :: int
  p_system_entry_date :: int
  p_booking_date :: int
  p_policy_status :: policy_status
  p_policy_term_months :: nat
  p_state :: string
  p_territory :: int
  p_total_premium :: real
  p_total_exposure_units :: real
  p_deductible_amount :: nat
  p_policy_limit :: nat
  p_underwriter_id :: int
  p_cancellation_date :: "int option"
  p_cancellation_reason :: "cancel_reason option"
  p_renewal_of_policy_id :: "int option"
  p_source_system :: source_system
  p_is_current_record :: bool
  p_is_deleted :: bool
  p_valid_from :: int
  p_valid_to :: "int option"

text \<open>What the body of the outer loop has fixed before the loop over the versions.\<close>

record policy_base =
  b_policy_id :: nat
  b_insured :: insured
  b_agent :: agent
  b_lob :: lob
  b_eff :: int
  b_exp :: int
  b_binding :: int
  b_issue :: int
  b_system_entry :: int
  b_booking :: int
  b_base_premium :: real
  b_base_exposure :: real
  b_base_status :: policy_status
  b_num_versions :: nat

text \<open>One pass of \<open>for v in range(num_versions)\<close>, with \<open>row_id\<close> already incremented.\<close>

definition gen_policy_version :: "policy_base \<Rightarrow> nat \<Rightarrow> nat \<Rightarrow> rng \<Rightarrow> policy \<times> rng" where
  "gen_policy_version b v row_id g =
     (let is_current = (v = b_num_versions b - 1);
          (d, g) = randint 10 90 g;
          valid_from = b_system_entry b + int v * d;
          (valid_to, g) =
            (if is_current then (None, g)
             else (let (d, g) = randint 10 90 g in (Some (valid_from + d), g)));
          (premium, exposure, status, cancel_date, cancel_reason, g) =
            (if v = 0 then
               (b_base_premium b, b_base_exposure b, b_base_status b, None, None, g)
             else
               (let (x, g) = uniform (85 / 100) (125 / 100) g;
                    premium = py_round (b_base_premium b * x) 2;
                    (y, g) = uniform (9 / 10) (11 / 10) g;
                    exposure = py_round (b_base_exposure b * y) 2;
                    (z, g) = random g
                in if z < 3 / 10 then
                     (let (d, g) = randint 30 300 g;
                          (r, g) = choice [NON_PAY, INSURED_REQ, UW_ACTION, REWRITE] g
                      in (premium, exposure, CANCELLED, Some (b_eff b + d), Some r, g))
                   else (premium, exposure, b_base_status b, None, None, g)));
          (is_deleted, g) =
            (if \<not> is_current then (let (x, g) = random g in (x < 2 / 100, g))
             else (False, g));
          (tier, g) = choice [STD, PREM, BASIC] g;
          (term_months, g) = choice [6, 12, 24] g;
          (territory, g) = randint 1 50 g;
          (deductible, g) = choice [250, 500, 1000, 2500, 5000] g;
          (limit, g) = choice [100000, 250000, 500000, 1000000, 2000000] g;
          (underwriter, g) = randint 1 20 g;
          (renewal_of, g) = randint 1 (max 1 (int (b_policy_id b) - 1)) g;
          (renewal, g) = maybe_null renewal_of (7 / 10) g;
          (src, g) = choice SOURCE_SYSTEMS g
      in (\<lparr> p_row_id = row_id,
            p_policy_id = b_policy_id b,
            p_version_number = v + 1,
            p_insured_id = insured_id (b_insured b),
            p_agent_id = agent_id (b_agent b),
            p_line_of_business = b_lob b,
            p_product_tier = tier,
            p_effective_date = b_eff b,
            p_expiration_date = b_exp b,
            p_binding_date = b_binding b,
            p_issue_date = b_issue b,
            p_system_entry_date = b_system_entry b,
            p_booking_date = b_booking b,
            p_policy_status = status,
            p_policy_term_months = term_months,
            p_state = insured_state (b_insured b),
            p_territory = territory,
            p_total_premium = premium,
            p_total_exposure_units = exposure,
            p_deductible_amount = deductible,
            p_policy_limit = limit,
            p_underwriter_id = underwriter,
            p_cancellation_date = cancel_date,
            p_cancellation_reason = cancel_reason,
            p_renewal_of_policy_id = renewal,
            p_source_system = src,
            p_is_current_record = is_current,
            p_is_deleted = is_deleted,
            p_valid_from = valid_from,
            p_valid_to = valid_to \<rparr>, g))"

text \<open>
  The loop over the versions: the rows appended, the last \<open>row_id\<close> and the tape left.
\<close>

fun gen_policy_versions ::
  "policy_base \<Rightarrow> nat list \<Rightarrow> nat \<Rightarrow> rng \<Rightarrow> policy list \<times> nat \<times> rng" where
  "gen_policy_versions b [] row_id g = ([], row_id, g)"
| "gen_policy_versions b (v # vs) row_id g =
     (let row_id = row_id + 1;
          (p, g) = gen_policy_version b v row_id g;
          (ps, row_id, g) = gen_policy_versions b vs row_id g
      in (p # ps, row_id, g))"

text \<open>
  The body of \<open>for i in range(1, NUM_POLICIES + 1)\<close> up to the loop over the versions.
  \<open>random.choice\<close> raises on an empty \<open>insureds\<close> or \<open>agents\<close>.
\<close>

definition gen_policy_base ::
  "insured list \<Rightarrow> agent list \<Rightarrow> nat \<Rightarrow> rng \<Rightarrow> py_error + (policy_base \<times> rng)" where
  "gen_policy_base insureds agents i g =
     (if insureds = [] then Inl IndexError
      else let (ins, g) = choice insureds g
      in if agents = [] then Inl IndexError
      else let (agt, g) = choice agents g;
          (lob, g) = choice LOB_CODES g;
          (eff, g) = rand_date 2020 2025 g;
          (term, g) = choice [180, 365, 730] g;
          exp = eff + term;
          (d, g) = randint 1 30 g;
          binding = eff - d;
          (d, g) = randint 0 14 g;
          issue = binding + d;
          (d, g) = randint 0 5 g;
          system_entry = issue + d;
          (d, g) = randint 0 10 g;
          booking = system_entry + d;
          (base_premium, g) = rand_premium g;
          (u, g) = uniform 1 100 g;
          base_exposure = py_round u 2;
          (base_status, g) = choice POLICY_STATUSES g;
          (x, g) = random g;
          (num_versions, g) = (if x < 30 / 100 then choice [2, 2, 3] g else (1, g))
      in Inr (\<lparr> b_policy_id = i, b_insured = ins, b_agent = agt, b_lob = lob,
                b_eff = eff, b_exp = exp, b_binding = binding, b_issue = issue,
                b_system_entry = system_entry, b_booking = booking,
                b_base_premium = base_premium, b_base_exposure = base_exposure,
                b_base_status = base_status, b_num_versions = num_versions \<rparr>, g))"

fun gen_policies_loop ::
  "insured list \<Rightarrow> agent list \<Rightarrow> nat list \<Rightarrow> nat \<Rightarrow> rng
     \<Rightarrow> py_error + (policy list \<times> nat \<times> rng)" where
  "gen_policies_loop insureds agents [] row_id g = Inr ([], row_id, g)"
| "gen_policies_loop insureds agents (i # is) row_id g =
     (case gen_policy_base insureds agents i g of
        Inl e \<Rightarrow> Inl e
      | Inr (b, g) \<Rightarrow>
          (let (rows, row_id, g) = gen_policy_versions b [0..<b_num_versions b] row_id g
           in case gen_policies_loop insureds agents is row_id g of
                Inl e \<Rightarrow> Inl e
              | Inr (rest, row_id, g) \<Rightarrow> Inr (rows @ rest, row_id, g)))"

definition gen_policies_with_cdc ::
  "config \<Rightarrow> insured list \<Rightarrow> agent list \<Rightarrow> rng \<Rightarrow> py_error + (policy list \<times> rng)" where
  "gen_policies_with_cdc cfg insureds agents g =
     (case gen_policies_loop insureds agents [1..<NUM_POLICIES cfg + 1] 0 g of
        Inl e \<Rightarrow> Inl e
      | Inr (policies, row_id, g) \<Rightarrow> Inr (policies, g))"

definition get_current_policies :: "policy list \<Rightarrow> policy list" where
  "get_current_policies policies =
     filter (\<lambda>p. p_is_current_record p \<and> \<not> p_is_deleted p) policies"

section \<open>Derived entities\<close>

text \<open>
  The rows of the derived entities carry the fields that the generator computes itself.
  The texts that come from the \<open>faker\<close> library (names, sentences, check numbers) and the
  renderings of identifiers (\<open>claim_number\<close>, \<open>coverage_description\<close>,
  \<open>accounting_period\<close>) are left out; the draws that \<open>maybe_null\<close> makes around them are
  kept, so that the tape is read in the order of the source.
\<close>

subsection \<open>Coverages\<close>

datatype coverage_type =
    BI | PD | COLL | COMP | UM | UIM | MED | LIAB | DWELLING
  | CONTENTS | LOI | ADDL_LIVING | SCHED_PROP | GL | PROD_LIAB

definition COVERAGE_TYPES :: "coverage_type list" where
  "COVERAGE_TYPES = [BI, PD, COLL, COMP, UM, UIM, MED, LIAB, DWELLING,
     CONTENTS, LOI, ADDL_LIVING, SCHED_PROP, GL, PROD_LIAB]"

record coverage =
  cov_coverage_id :: nat
  cov_policy_id :: nat
  cov_coverage_code :: coverage_type
  cov_coverage_limit :: nat
  cov_coverage_deductible :: nat
  cov_premium_amount :: real
  cov_exposure_units :: real
  cov_effective_date :: int
  cov_expiration_date :: int

definition gen_coverage :: "policy \<Rightarrow> nat \<Rightarrow> rng \<Rightarrow> coverage \<times> rng" where
  "gen_coverage pol cov_id g =
     (let (cov_type, g) = choice COVERAGE_TYPES g;
          (limit, g) = choice [25000, 50000, 100000, 250000, 500000, 1000000] g;
          (deductible, g) = choice [0, 250, 500, 1000, 2500] g;
          (u, g) = uniform 50 5000 g;
          (w, g) = uniform (1 / 2) 50 g
      in (\<lparr> cov_coverage_id = cov_id,
            cov_policy_id = p_policy_id pol,
            cov_coverage_code = cov_type,
            cov_coverage_limit = limit,
            cov_coverage_deductible = deductible,
            cov_premium_amount = py_round u 2,
            cov_exposure_units = py_round w 2,
            cov_effective_date = p_effective_date pol,
            cov_expiration_date = p_expiration_date pol \<rparr>, g))"

text \<open>
  \<open>for _ in range(num_covs)\<close>: the rows appended, the next identifier, the tape, and
  whether the function has returned from inside the loop.
\<close>

fun gen_coverages_inner ::
  "config \<Rightarrow> policy \<Rightarrow> nat \<Rightarrow> nat \<Rightarrow> rng \<Rightarrow> coverage list \<times> nat \<times> rng \<times> bool" where
  "gen_coverages_inner cfg pol 0 cov_id g = ([], cov_id, g, False)"
| "gen_coverages_inner cfg pol (Suc n) cov_id g =
     (if cov_id > NUM_COVERAGES cfg then ([], cov_id, g, True)
      else (let (c, g) = gen_coverage pol cov_id g;
                (cs, cov_id, g, stop) = gen_coverages_inner cfg pol n (cov_id + 1) g
            in (c # cs, cov_id, g, stop)))"

fun gen_coverages_loop :: "config \<Rightarrow> policy list \<Rightarrow> nat \<Rightarrow> rng \<Rightarrow> coverage list \<times> rng" where
  "gen_coverages_loop cfg [] cov_id g = ([], g)"
| "gen_coverages_loop cfg (pol # pols) cov_id g =
     (let (num_covs, g) = randint 1 5 g;
          (cs, cov_id, g, stop) = gen_coverages_inner cfg pol (nat num_covs) cov_id g
      in if stop then (cs, g)
         else (let (rest, g) = gen_coverages_loop cfg pols cov_id g in (cs @ rest, g)))"

definition gen_coverages :: "config \<Rightarrow> policy list \<Rightarrow> rng \<Rightarrow> coverage list \<times> rng" where
  "gen_coverages cfg policies g =
     (let current = get_current_policies policies in gen_coverages_loop cfg current 1 g)"

subsection \<open>Claims\<close>

datatype claim_status = OPEN | CLOSED | REOPENED | SUBROGATION | LITIGATION

definition CLAIM_STATUSES :: "claim_status list" where
  "CLAIM_STATUSES = [OPEN, CLOSED, REOPENED, SUBROGATION, LITIGATION]"

datatype claim_cause =
    FIRE | WATER | THEFT | COLLISION | WEATHER | SLIP_FALL
  | VANDALISM | MALPRACTICE | PRODUCT_DEFECT | OTHER

definition CLAIM_CAUSES :: "claim_cause list" where
  "CLAIM_CAUSES = [FIRE, WATER, THEFT, COLLISION, WEATHER, SLIP_FALL,
     VANDALISM, MALPRACTICE, PRODUCT_DEFECT, OTHER]"

datatype claimant_type = FIRST_PARTY | THIRD_PARTY

record claim =
  c_claim_id :: nat
  c_policy_id :: nat
  c_insured_id :: nat
  c_line_of_business :: lob
  c_loss_date :: int
  c_report_date :: int
  c_entry_date :: int
  c_processing_date :: int
  c_claim_status :: claim_status
  c_cause_of_loss :: claim_cause
  c_loss_state :: string
  c_claimant_type :: claimant_type
  c_adjuster_id :: int
  c_reserve_amount :: real
  c_paid_loss_amount :: real
  c_paid_alae_amount :: real
  c_paid_ulae_amount :: real
  c_salvage_amount :: real
  c_subrogation_amount :: real
  c_total_incurred :: real
  c_catastrophe_code :: "int option"
  c_litigation_flag :: bool
  c_fraud_indicator :: bool
  c_close_date :: "int option"
  c_reopen_date :: "int option"
  c_source_system :: source_system
  c_is_deleted :: bool

text \<open>The body of \<open>for i in range(1, NUM_CLAIMS + 1)\<close> after the guard on \<open>current\<close>.\<close>

definition gen_claim :: "policy list \<Rightarrow> nat \<Rightarrow> rng \<Rightarrow> claim \<times> rng" where
  "gen_claim current i g =
     (let (pol, g) = choice current g;
          (loss_date, g) = rand_date 2020 2025 g;
          (d, g) = randint 0 60 g;
          report_date = loss_date + d;
          (d, g) = randint 0 30 g;
          entry_date = report_date + d;
          (d, g) = randint 0 7 g;
          processing_date = entry_date + d;
          (x, g) = random g;
          is_closed = (x < 6 / 10);
          (close_date, g) =
            (if is_closed then (let (d, g) = randint 30 730 g in (Some (report_date + d), g))
             else (None, g));
          (is_reopened, g) =
            (if is_closed then (let (x, g) = random g in (x < 8 / 100, g)) else (False, g));
          (reopen_date, g) =
            (if is_reopened then
               (let (d, g) = randint 30 365 g
                in (case close_date of None \<Rightarrow> None | Some cd \<Rightarrow> Some (cd + d), g))
             else (None, g));
          (status, g) = choice CLAIM_STATUSES g;
          status = (if is_reopened then REOPENED
                    else if is_closed \<and> status \<noteq> CLOSED then CLOSED else status);
          (cause, g) = choice CLAIM_CAUSES g;
          (claimant, g) = choice [FIRST_PARTY, THIRD_PARTY] g;
          (adjuster, g) = randint 1 30 g;
          (u, g) = uniform 500 200000 g;
          reserve = py_round u 2;
          (u, g) = uniform 0 150000 g;
          paid_loss = py_round u 2;
          (u, g) = uniform 0 30000 g;
          paid_alae = py_round u 2;
          (u, g) = uniform 0 10000 g;
          paid_ulae = py_round u 2;
          (u, g) = uniform 0 5000 g;
          salvage = py_round u 2;
          (u, g) = uniform 0 10000 g;
          subrogation = py_round u 2;
          (cat, g) = randint 1 20 g;
          (cat_code, g) = maybe_null cat (85 / 100) g;
          (x, g) = random g;
          litigation = (x < 1 / 10);
          (x, g) = random g;
          fraud = (x < 3 / 100);
          (src, g) = choice SOURCE_SYSTEMS g;
          (x, g) = random g;
          is_deleted = (x < 1 / 100)
      in (\<lparr> c_claim_id = i,
            c_policy_id = p_policy_id pol,
            c_insured_id = p_insured_id pol,
            c_line_of_business = p_line_of_business pol,
            c_loss_date = loss_date,
            c_report_date = report_date,
            c_entry_date = entry_date,
            c_processing_date = processing_date,
            c_claim_status = status,
            c_cause_of_loss = cause,
            c_loss_state = p_state pol,
            c_claimant_type = claimant,
            c_adjuster_id = adjuster,
            c_reserve_amount = reserve,
            c_paid_loss_amount = paid_loss,
            c_paid_alae_amount = paid_alae,
            c_paid_ulae_amount = paid_ulae,
            c_salvage_amount = salvage,
            c_subrogation_amount = subrogation,
            c_total_incurred =
              py_round (reserve + paid_loss + paid_alae - salvage - subrogation) 2,
            c_catastrophe_code = cat_code,
            c_litigation_flag = litigation,
            c_fraud_indicator = fraud,
            c_close_date = close_date,
            c_reopen_date = reopen_date,
            c_source_system = src,
            c_is_deleted = is_deleted \<rparr>, g))"

text \<open>\<open>random.choice(current)\<close> raises \<open>IndexError\<close> when no policy is current.\<close>

fun gen_claims_loop :: "policy list \<Rightarrow> nat list \<Rightarrow> rng \<Rightarrow> py_error + (claim list \<times> rng)" where
  "gen_claims_loop current [] g = Inr ([], g)"
| "gen_claims_loop current (i # is) g =
     (if current = [] then Inl IndexError
      else (let (c, g) = gen_claim current i g
            in case gen_claims_loop current is g of
                 Inl e \<Rightarrow> Inl e
               | Inr (cs, g) \<Rightarrow> Inr (c # cs, g)))"

definition gen_claims :: "config \<Rightarrow> policy list \<Rightarrow> rng \<Rightarrow> py_error + (claim list \<times> rng)" where
  "gen_claims cfg policies g =
     (let current = get_current_policies policies
      in gen_claims_loop current [1..<NUM_CLAIMS cfg + 1] g)"

definition get_active_claims :: "claim list \<Rightarrow> claim list" where
  "get_active_claims claims = filter (\<lambda>c. \<not> c_is_deleted c) claims"

subsection \<open>Claim transactions\<close>

datatype claim_txn_type = RESERVE_SET | RESERVE_CHANGE | PAYMENT | RECOVERY | EXPENSE | VOID

datatype claim_txn_category = LOSS | ALAE | ULAE | SALVAGE | SUBRO

record claim_txn =
  ct_transaction_id :: nat
  ct_claim_id :: nat
  ct_transaction_type :: claim_txn_type
  ct_transaction_date :: int
  ct_posting_date :: int
  ct_check_date :: "int option"
  ct_amount :: real
  ct_category :: claim_txn_category
  ct_is_void :: bool
  ct_void_of_transaction_id :: "nat option"
  ct_load_ts :: "int \<times> int"

text \<open>
  One pass of \<open>for j in range(num_txns)\<close>: the transaction, and after a payment that is
  voided the \<open>VOID\<close> row. The flag tells that one of the two \<open>return txns\<close> was taken.
\<close>

definition gen_claim_txn_step ::
  "config \<Rightarrow> claim \<Rightarrow> nat \<Rightarrow> rng \<Rightarrow> claim_txn list \<times> nat \<times> rng \<times> bool" where
  "gen_claim_txn_step cfg claim txn_id g =
     (if txn_id > NUM_CLAIM_TRANSACTIONS cfg then ([], txn_id, g, True)
      else
        (let (txn_type, g) = choice [RESERVE_SET, RESERVE_CHANGE, PAYMENT, RECOVERY, EXPENSE] g;
             (txn_date, g) = rand_date 2020 2025 g;
             (d, g) = randint 0 5 g;
             posting_date = txn_date + d;
             (check_date, g) =
               (if txn_type = PAYMENT then
                  (let (d, g) = randint 0 10 g in (Some (posting_date + d), g))
                else (None, g));
             (u, g) = uniform (- 5000) 50000 g;
             amount = py_round u 2;
             (d, g) = randint 0 3 g;
             (load_ts, g) = rand_ts (posting_date + d) g;
             (category, g) = choice [LOSS, ALAE, ULAE, SALVAGE, SUBRO] g;
             g = snd (maybe_null () (4 / 10) g);
             g = snd (maybe_null () (3 / 10) g);
             txn = \<lparr> ct_transaction_id = txn_id,
                     ct_claim_id = c_claim_id claim,
                     ct_transaction_type = txn_type,
                     ct_transaction_date = txn_date,
                     ct_posting_date = posting_date,
                     ct_check_date = check_date,
                     ct_amount = amount,
                     ct_category = category,
                     ct_is_void = False,
                     ct_void_of_transaction_id = None,
                     ct_load_ts = load_ts \<rparr>;
             txn_id = txn_id + 1;
             (voided, g) =
               (if txn_type = PAYMENT then (let (x, g) = random g in (x < 5 / 100, g))
                else (False, g))
         in if voided then
              (if txn_id > NUM_CLAIM_TRANSACTIONS cfg then ([txn], txn_id, g, True)
               else
                 (let (d, g) = randint 1 30 g;
                      void_date = txn_date + d;
                      (d, g) = randint 0 5 g;
                      void_posting = void_date + d;
                      (void_ts, g) = rand_ts void_posting g;
                      void = \<lparr> ct_transaction_id = txn_id,
                               ct_claim_id = c_claim_id claim,
                               ct_transaction_type = VOID,
                               ct_transaction_date = void_date,
                               ct_posting_date = void_posting,
                               ct_check_date = None,
                               ct_amount = - amount,
                               ct_category = ct_category txn,
                               ct_is_void = True,
                               ct_void_of_transaction_id = Some (txn_id - 1),
                               ct_load_ts = void_ts \<rparr>
                  in ([txn, void], txn_id + 1, g, False)))
            else ([txn], txn_id, g, False)))"

fun gen_claim_txns_inner ::
  "config \<Rightarrow> claim \<Rightarrow> nat \<Rightarrow> nat \<Rightarrow> rng \<Rightarrow> claim_txn list \<times> nat \<times> rng \<times> bool" where
  "gen_claim_txns_inner cfg claim 0 txn_id g = ([], txn_id, g, False)"
| "gen_claim_txns_inner cfg claim (Suc n) txn_id g =
     (let (rows, txn_id, g, stop) = gen_claim_txn_step cfg claim txn_id g
      in if stop then (rows, txn_id, g, True)
         else (let (rest, txn_id, g, stop) = gen_claim_txns_inner cfg claim n txn_id g
               in (rows @ rest, txn_id, g, stop)))"

fun gen_claim_txns_loop :: "config \<Rightarrow> claim list \<Rightarrow> nat \<Rightarrow> rng \<Rightarrow> claim_txn list \<times> rng" where
  "gen_claim_txns_loop cfg [] txn_id g = ([], g)"
| "gen_claim_txns_loop cfg (claim # claims) txn_id g =
     (let (num_txns, g) = randint 1 10 g;
          (rows, txn_id, g, stop) = gen_claim_txns_inner cfg claim (nat num_txns) txn_id g
      in if stop then (rows, g)
         else (let (rest, g) = gen_claim_txns_loop cfg claims txn_id g in (rows @ rest, g)))"

definition gen_claim_transactions :: "config \<Rightarrow> claim list \<Rightarrow> rng \<Rightarrow> claim_txn list \<times> rng" where
  "gen_claim_transactions cfg claims g =
     (let active_claims = get_active_claims claims
      in gen_claim_txns_loop cfg active_claims 1 g)"

subsection \<open>Premium transactions\<close>

datatype premium_txn_type =
    WRITTEN | EARNED | UNEARNED | CEDED | RETURN | AUDIT | ENDORSEMENT | INSTALLMENT
  | REVERSAL

record premium_txn =
  pt_transaction_id :: nat
  pt_policy_id :: nat
  pt_line_of_business :: lob
  pt_transaction_type :: premium_txn_type
  pt_transaction_date :: int
  pt_accounting_date :: int
  pt_booking_date :: int
  pt_effective_date :: int
  pt_amount :: real
  pt_state :: string
  pt_agent_id :: nat
  pt_is_reversal :: bool
  pt_reversal_of_transaction_id :: "nat option"
  pt_source_system :: source_system
  pt_load_ts :: "int \<times> int"

definition gen_premium_txn_step ::
  "config \<Rightarrow> policy \<Rightarrow> nat \<Rightarrow> rng \<Rightarrow> premium_txn list \<times> nat \<times> rng \<times> bool" where
  "gen_premium_txn_step cfg pol txn_id g =
     (if txn_id > NUM_PREMIUM_TRANSACTIONS cfg then ([], txn_id, g, True)
      else
        (let (txn_type, g) =
               choice [WRITTEN, EARNED, UNEARNED, CEDED, RETURN, AUDIT, ENDORSEMENT,
                       INSTALLMENT] g;
             (txn_date, g) = rand_date 2020 2025 g;
             (d, g) = randint 0 30 g;
             accounting_date = txn_date + d;
             (d, g) = randint 0 7 g;
             booking_date = accounting_date + d;
             (eff_date, g) =
               (if txn_type = ENDORSEMENT then
                  (let (d, g) = randint 0 90 g in (txn_date - d, g))
                else (txn_date, g));
             (d, g) = randint 0 2 g;
             (load_ts, g) = rand_ts (booking_date + d) g;
             (u, g) = uniform (- 2000) 15000 g;
             amount = py_round u 2;
             (src, g) = choice SOURCE_SYSTEMS g;
             txn = \<lparr> pt_transaction_id = txn_id,
                     pt_policy_id = p_policy_id pol,
                     pt_line_of_business = p_line_of_business pol,
                     pt_transaction_type = txn_type,
                     pt_transaction_date = txn_date,
                     pt_accounting_date = accounting_date,
                     pt_booking_date = booking_date,
                     pt_effective_date = eff_date,
                     pt_amount = amount,
                     pt_state = p_state pol,
                     pt_agent_id = p_agent_id pol,
                     pt_is_reversal = False,
                     pt_reversal_of_transaction_id = None,
                     pt_source_system = src,
                     pt_load_ts = load_ts \<rparr>;
             txn_id = txn_id + 1;
             (x, g) = random g
         in if x < 3 / 100 then
              (if txn_id > NUM_PREMIUM_TRANSACTIONS cfg then ([txn], txn_id, g, True)
               else
                 (let (d, g) = randint 1 45 g;
                      rev_date = txn_date + d;
                      (d, g) = randint 0 30 g;
                      rev_acct = rev_date + d;
                      (d, g) = randint 0 7 g;
                      rev_booking = rev_acct + d;
                      (rev_src, g) = choice SOURCE_SYSTEMS g;
                      (d, g) = randint 0 2 g;
                      (rev_ts, g) = rand_ts (rev_acct + d) g;
                      rev = \<lparr> pt_transaction_id = txn_id,
                              pt_policy_id = p_policy_id pol,
                              pt_line_of_business = p_line_of_business pol,
                              pt_transaction_type = REVERSAL,
                              pt_transaction_date = rev_date,
                              pt_accounting_date = rev_acct,
                              pt_booking_date = rev_booking,
                              pt_effective_date = eff_date,
                              pt_amount = - amount,
                              pt_state = p_state pol,
                              pt_agent_id = p_agent_id pol,
                              pt_is_reversal = True,
                              pt_reversal_of_transaction_id = Some (txn_id - 1),
                              pt_source_system = rev_src,
                              pt_load_ts = rev_ts \<rparr>
                  in ([txn, rev], txn_id + 1, g, False)))
            else ([txn], txn_id, g, False)))"

fun gen_premium_txns_inner ::
  "config \<Rightarrow> policy \<Rightarrow> nat \<Rightarrow> nat \<Rightarrow> rng \<Rightarrow> premium_txn list \<times> nat \<times> rng \<times> bool" where
  "gen_premium_txns_inner cfg pol 0 txn_id g = ([], txn_id, g, False)"
| "gen_premium_txns_inner cfg pol (Suc n) txn_id g =
     (let (rows, txn_id, g, stop) = gen_premium_txn_step cfg pol txn_id g
      in if stop then (rows, txn_id, g, True)
         else (let (rest, txn_id, g, stop) = gen_premium_txns_inner cfg pol n txn_id g
               in (rows @ rest, txn_id, g, stop)))"

fun gen_premium_txns_loop ::
  "config \<Rightarrow> policy list \<Rightarrow> nat \<Rightarrow> rng \<Rightarrow> premium_txn list \<times> rng" where
  "gen_premium_txns_loop cfg [] txn_id g = ([], g)"
| "gen_premium_txns_loop cfg (pol # pols) txn_id g =
     (let (num_txns, g) = randint 1 8 g;
          (rows, txn_id, g, stop) = gen_premium_txns_inner cfg pol (nat num_txns) txn_id g
      in if stop then (rows, g)
         else (let (rest, g) = gen_premium_txns_loop cfg pols txn_id g in (rows @ rest, g)))"

definition gen_premium_transactions ::
  "config \<Rightarrow> policy list \<Rightarrow> rng \<Rightarrow> premium_txn list \<times> rng" where
  "gen_premium_transactions cfg policies g =
     (let current = get_current_policies policies
      in gen_premium_txns_loop cfg current 1 g)"

subsection \<open>Quotes\<close>

datatype quote_status = QUOTED | BOUND | DECLINED | QUOTE_EXPIRED | LOST

datatype decline_reason = PRICE | COVERAGE | COMPETITOR | NOT_ELIGIBLE

record quote =
  qt_quote_id :: nat
  qt_insured_id :: nat
  qt_agent_id :: nat
  qt_line_of_business :: lob
  qt_state :: string
  qt_quote_date :: int
  qt_quoted_premium :: real
  qt_status :: quote_status
  qt_decline_reason :: "decline_reason option"
  qt_bound_policy_id :: "int option"
  qt_source_system :: source_system

text \<open>
  The body of \<open>for i in range(1, NUM_QUOTES + 1)\<close>. \<open>random.choice\<close> raises \<open>IndexError\<close>
  on an empty pool and \<open>random.randint(1, NUM_POLICIES)\<close> raises \<open>ValueError\<close> on an empty
  range.
\<close>

definition gen_quote ::
  "config \<Rightarrow> insured list \<Rightarrow> agent list \<Rightarrow> nat \<Rightarrow> rng \<Rightarrow> py_error + (quote \<times> rng)" where
  "gen_quote cfg insureds agents i g =
     (if insureds = [] then Inl IndexError
      else let (ins, g) = choice insureds g
      in if agents = [] then Inl IndexError
      else let (agt, g) = choice agents g;
          (lob, g) = choice LOB_CODES g;
          (quote_date, g) = rand_date 2020 2025 g;
          (premium, g) = rand_premium g;
          (status, g) = choice [QUOTED, BOUND, DECLINED, QUOTE_EXPIRED, LOST] g;
          (reason, g) = choice [PRICE, COVERAGE, COMPETITOR, NOT_ELIGIBLE] g;
          (decline, g) = maybe_null reason (6 / 10) g;
          g = snd (maybe_null () (7 / 10) g)
      in if NUM_POLICIES cfg < 1 then Inl ValueError
      else let (bound, g) = randint 1 (int (NUM_POLICIES cfg)) g;
          (bound_policy_id, g) = maybe_null bound (65 / 100) g;
          (src, g) = choice SOURCE_SYSTEMS g
      in Inr (\<lparr> qt_quote_id = i,
                qt_insured_id = insured_id ins,
                qt_agent_id = agent_id agt,
                qt_line_of_business = lob,
                qt_state = insured_state ins,
                qt_quote_date = quote_date,
                qt_quoted_premium = premium,
                qt_status = status,
                qt_decline_reason = decline,
                qt_bound_policy_id = bound_policy_id,
                qt_source_system = src \<rparr>, g))"

fun gen_quotes_loop ::
  "config \<Rightarrow> insured list \<Rightarrow> agent list \<Rightarrow> nat list \<Rightarrow> rng \<Rightarrow> py_error + (quote list \<times> rng)" where
  "gen_quotes_loop cfg insureds agents [] g = Inr ([], g)"
| "gen_quotes_loop cfg insureds agents (i # is) g =
     (case gen_quote cfg insureds agents i g of
        Inl e \<Rightarrow> Inl e
      | Inr (q, g) \<Rightarrow>
          (case gen_quotes_loop cfg insureds agents is g of
             Inl e \<Rightarrow> Inl e
           | Inr (qs, g) \<Rightarrow> Inr (q # qs, g)))"

definition gen_quotes ::
  "config \<Rightarrow> insured list \<Rightarrow> agent list \<Rightarrow> rng \<Rightarrow> py_error + (quote list \<times> rng)" where
  "gen_quotes cfg insureds agents g =
     gen_quotes_loop cfg insureds agents [1..<NUM_QUOTES cfg + 1] g"

subsection \<open>Notes\<close>

text \<open>
  \<open>random.sample(population, k)\<close> with \<open>k \<le> len(population)\<close>, as the selection from a
  shrinking pool that the library documents: draw a position below the number of live
  elements, take the element there, move the last live element into its place. Every
  sequence of \<open>k\<close> elements at distinct positions is the result on some tape.
\<close>

fun sample_loop :: "'a list \<Rightarrow> nat \<Rightarrow> nat \<Rightarrow> rng \<Rightarrow> 'a list \<times> rng" where
  "sample_loop pool m 0 g = ([], g)"
| "sample_loop pool m (Suc k) g =
     (let (r, g) = next_raw g;
          j = r mod m;
          x = pool ! j;
          pool = pool[j := pool ! (m - 1)];
          (xs, g) = sample_loop pool (m - 1) k g
      in (x # xs, g))"

definition sample :: "'a list \<Rightarrow> nat \<Rightarrow> rng \<Rightarrow> 'a list \<times> rng" where
  "sample population k g = sample_loop population (length population) k g"

datatype entity_type = CLAIM | POLICY

datatype note_type =
    ADJUSTER_NOTE | PHONE_LOG | EMAIL | INVESTIGATION | SUPERVISOR_REVIEW
  | UW_COMMENT | INSPECTION_REPORT | MVR_RESULT | TIER_OVERRIDE

record note_row =
  n_note_id :: nat
  n_entity_type :: entity_type
  n_entity_id :: nat
  n_note_type :: note_type
  n_created_at :: int
  n_source_system :: source_system

definition gen_claim_note :: "claim \<Rightarrow> nat \<Rightarrow> rng \<Rightarrow> note_row \<times> rng" where
  "gen_claim_note claim note_id g =
     (let (nt, g) = choice [ADJUSTER_NOTE, PHONE_LOG, EMAIL, INVESTIGATION,
                            SUPERVISOR_REVIEW] g;
          (nb_sentences, g) = randint 2 8 g;
          (created, g) = rand_date 2020 2025 g;
          (src, g) = choice SOURCE_SYSTEMS g
      in (\<lparr> n_note_id = note_id, n_entity_type = CLAIM, n_entity_id = c_claim_id claim,
            n_note_type = nt, n_created_at = created, n_source_system = src \<rparr>, g))"

fun gen_claim_notes_inner :: "claim \<Rightarrow> nat \<Rightarrow> nat \<Rightarrow> rng \<Rightarrow> note_row list \<times> nat \<times> rng" where
  "gen_claim_notes_inner claim 0 note_id g = ([], note_id, g)"
| "gen_claim_notes_inner claim (Suc n) note_id g =
     (let (x, g) = gen_claim_note claim note_id g;
          (xs, note_id, g) = gen_claim_notes_inner claim n (note_id + 1) g
      in (x # xs, note_id, g))"

fun gen_claim_notes_loop :: "claim list \<Rightarrow> nat \<Rightarrow> rng \<Rightarrow> note_row list \<times> nat \<times> rng" where
  "gen_claim_notes_loop [] note_id g = ([], note_id, g)"
| "gen_claim_notes_loop (claim # claims) note_id g =
     (let (n, g) = randint 1 5 g;
          (xs, note_id, g) = gen_claim_notes_inner claim (nat n) note_id g;
          (ys, note_id, g) = gen_claim_notes_loop claims note_id g
      in (xs @ ys, note_id, g))"

definition gen_policy_note :: "policy \<Rightarrow> nat \<Rightarrow> rng \<Rightarrow> note_row \<times> rng" where
  "gen_policy_note pol note_id g =
     (let (nt, g) = choice [UW_COMMENT, INSPECTION_REPORT, MVR_RESULT, TIER_OVERRIDE] g;
          (nb_sentences, g) = randint 1 5 g;
          (created, g) = rand_date 2020 2025 g;
          (src, g) = choice SOURCE_SYSTEMS g
      in (\<lparr> n_note_id = note_id, n_entity_type = POLICY, n_entity_id = p_policy_id pol,
            n_note_type = nt, n_created_at = created, n_source_system = src \<rparr>, g))"

fun gen_policy_notes_loop :: "policy list \<Rightarrow> nat \<Rightarrow> rng \<Rightarrow> note_row list \<times> nat \<times> rng" where
  "gen_policy_notes_loop [] note_id g = ([], note_id, g)"
| "gen_policy_notes_loop (pol # pols) note_id g =
     (let (x, g) = gen_policy_note pol note_id g;
          (xs, note_id, g) = gen_policy_notes_loop pols (note_id + 1) g
      in (x # xs, note_id, g))"

definition gen_unstructured_notes :: "claim list \<Rightarrow> policy list \<Rightarrow> rng \<Rightarrow> note_row list \<times> rng" where
  "gen_unstructured_notes claims policies g =
     (let note_id = 1;
          active_claims = get_active_claims claims;
          current_policies = get_current_policies policies;
          (picked_claims, g) = sample active_claims (min 1500 (length active_claims)) g;
          (claim_notes, note_id, g) = gen_claim_notes_loop picked_claims note_id g;
          (picked_policies, g) =
            sample current_policies (min 1000 (length current_policies)) g;
          (policy_notes, note_id, g) = gen_policy_notes_loop picked_policies note_id g
      in (claim_notes @ policy_notes, g))"

section \<open>Invariants of the transaction loops\<close>

text \<open>
  What the rows appended between two values of the transaction counter satisfy: their
  identifiers are the consecutive numbers in between, they belong to the entities the
  loop has visited, and every \<open>VOID\<close> (every \<open>REVERSAL\<close>) has its partner among them.
\<close>

definition void_paired :: "claim_txn list \<Rightarrow> claim_txn \<Rightarrow> bool" where
  "void_paired rows t \<longleftrightarrow>
     (\<exists>p \<in> set rows. ct_void_of_transaction_id t = Some (ct_transaction_id p) \<and>
        ct_transaction_type p = PAYMENT \<and> ct_claim_id p = ct_claim_id t \<and>
        ct_amount t = - ct_amount p \<and>
        ct_transaction_date p \<le> ct_transaction_date t \<and>
        ct_transaction_date t \<le> ct_posting_date t)"

definition claim_txns_ok :: "nat set \<Rightarrow> nat \<Rightarrow> nat \<Rightarrow> claim_txn list \<Rightarrow> bool" where
  "claim_txns_ok ids lo hi rows \<longleftrightarrow>
     lo \<le> hi \<and> map ct_transaction_id rows = [lo..<hi] \<and>
     (\<forall>t \<in> set rows. ct_claim_id t \<in> ids \<and>
        (ct_transaction_type t = VOID \<longrightarrow> void_paired rows t))"

definition reversal_paired :: "premium_txn list \<Rightarrow> premium_txn \<Rightarrow> bool" where
  "reversal_paired rows t \<longleftrightarrow>
     (\<exists>p \<in> set rows. pt_reversal_of_transaction_id t = Some (pt_transaction_id p) \<and>
        pt_transaction_type p \<noteq> REVERSAL \<and> pt_policy_id p = pt_policy_id t \<and>
        pt_amount t = - pt_amount p \<and>
        pt_effective_date t = pt_effective_date p \<and>
        pt_transaction_date p < pt_transaction_date t)"

definition premium_row_dates :: "premium_txn \<Rightarrow> bool" where
  "premium_row_dates t \<longleftrightarrow>
     pt_transaction_date t \<le> pt_accounting_date t \<and>
     pt_accounting_date t \<le> pt_booking_date t \<and>
     (pt_transaction_type t \<noteq> REVERSAL \<and> pt_transaction_type t \<noteq> ENDORSEMENT \<longrightarrow>
        pt_effective_date t = pt_transaction_date t) \<and>
     (pt_transaction_type t = ENDORSEMENT \<longrightarrow>
        pt_transaction_date t - 90 \<le> pt_effective_date t \<and>
        pt_effective_date t \<le> pt_transaction_date t) \<and>
     (pt_transaction_type t = REVERSAL \<longrightarrow> pt_effective_date t < pt_transaction_date t)"

definition premium_txns_ok :: "nat set \<Rightarrow> nat \<Rightarrow> nat \<Rightarrow> premium_txn list \<Rightarrow> bool" where
  "premium_txns_ok ids lo hi rows \<longleftrightarrow>
     lo \<le> hi \<and> map pt_transaction_id rows = [lo..<hi] \<and>
     (\<forall>t \<in> set rows. pt_policy_id t \<in> ids \<and> premium_row_dates t \<and>
        (pt_transaction_type t = REVERSAL \<longrightarrow> reversal_paired rows t))"

section \<open>Gold metrics\<close>

text \<open>
  The year of a date, read by the source from the first four characters of the ISO
  string: the year of the ordinal, after \<open>_ord2ymd\<close> of the \<open>datetime\<close> module.
\<close>

definition year_of :: "int \<Rightarrow> int" where
  "year_of ordinal =
     (let n = ordinal - 1;
          n400 = n div 146097;
          n = n mod 146097;
          n100 = n div 36524;
          n = n mod 36524;
          n4 = n div 1461;
          n = n mod 1461;
          n1 = n div 365;
          year = n400 * 400 + 1 + n100 * 100 + n4 * 4 + n1
      in if n1 = 4 \<or> n100 = 4 then year - 1 else year)"

text \<open>
  A dictionary that is iterated in insertion order is an association list.
  \<open>upsert k init f d\<close> is \<open>if k not in d: d[k] = init\<close> followed by the changes \<open>f\<close> made to
  \<open>d[k]\<close> through the alias \<open>m = d[k]\<close>.
\<close>

fun upsert :: "'k \<Rightarrow> 'v \<Rightarrow> ('v \<Rightarrow> 'v) \<Rightarrow> ('k \<times> 'v) list \<Rightarrow> ('k \<times> 'v) list" where
  "upsert k init f [] = [(k, f init)]"
| "upsert k init f ((k', v) # kvs) =
     (if k' = k then (k', f v) # kvs else (k', v) # upsert k init f kvs)"

text \<open>
  A dictionary of lists filled with \<open>d.setdefault(key(x), []).append(x)\<close> over \<open>xs\<close> and read
  with \<open>d.get(k, [])\<close>: the elements of \<open>xs\<close> with that key, in their order.
\<close>

definition index_by :: "('a \<Rightarrow> 'k) \<Rightarrow> 'a list \<Rightarrow> 'k \<Rightarrow> 'a list" where
  "index_by key xs k = filter (\<lambda>x. key x = k) xs"

text \<open>
  A row of the summary by line of business and year. The ratios that the source adds to
  the dictionary after the accumulation are fields of the record from the start
  (\<open>lob_description\<close>, the name of the line of business, is left out).
\<close>

record lob_year_row =
  ly_line_of_business :: lob
  ly_policy_year :: int
  ly_policy_count :: nat
  ly_total_exposure_units :: real
  ly_written_premium :: real
  ly_earned_premium :: real
  ly_claim_count :: nat
  ly_open_claim_count :: nat
  ly_closed_claim_count :: nat
  ly_paid_loss :: real
  ly_paid_alae :: real
  ly_paid_ulae :: real
  ly_total_lae :: real
  ly_salvage :: real
  ly_subrogation :: real
  ly_net_incurred_loss :: real
  ly_total_incurred :: real
  ly_frequency :: real
  ly_severity :: real
  ly_pure_premium :: real
  ly_average_premium :: real
  ly_loss_ratio :: real
  ly_lae_ratio :: real
  ly_combined_loss_lae_ratio :: real

definition lob_year_init :: "lob \<Rightarrow> int \<Rightarrow> lob_year_row" where
  "lob_year_init l year =
     \<lparr> ly_line_of_business = l, ly_policy_year = year, ly_policy_count = 0,
       ly_total_exposure_units = 0, ly_written_premium = 0, ly_earned_premium = 0,
       ly_claim_count = 0, ly_open_claim_count = 0, ly_closed_claim_count = 0,
       ly_paid_loss = 0, ly_paid_alae = 0, ly_paid_ulae = 0, ly_total_lae = 0,
       ly_salvage = 0, ly_subrogation = 0, ly_net_incurred_loss = 0,
       ly_total_incurred = 0, ly_frequency = 0, ly_severity = 0, ly_pure_premium = 0,
       ly_average_premium = 0, ly_loss_ratio = 0, ly_lae_ratio = 0,
       ly_combined_loss_lae_ratio = 0 \<rparr>"

text \<open>The body of \<open>for c in pol_claims\<close>.\<close>

definition add_claim :: "claim \<Rightarrow> lob_year_row \<Rightarrow> lob_year_row" where
  "add_claim c m =
     (let m = (if c_claim_status c \<in> {OPEN, REOPENED, LITIGATION, SUBROGATION}
               then m \<lparr> ly_open_claim_count := ly_open_claim_count m + 1 \<rparr>
               else m \<lparr> ly_closed_claim_count := ly_closed_claim_count m + 1 \<rparr>)
      in m \<lparr> ly_paid_loss := ly_paid_loss m + c_paid_loss_amount c,
             ly_paid_alae := ly_paid_alae m + c_paid_alae_amount c,
             ly_paid_ulae := ly_paid_ulae m + c_paid_ulae_amount c,
             ly_salvage := ly_salvage m + c_salvage_amount c,
             ly_subrogation := ly_subrogation m + c_subrogation_amount c \<rparr>)"

text \<open>What one policy adds to its row, given its written and earned premium.\<close>

definition add_policy :: "policy \<Rightarrow> real \<Rightarrow> real \<Rightarrow> claim list \<Rightarrow> lob_year_row \<Rightarrow> lob_year_row" where
  "add_policy pol wp ep pol_claims m =
     (let m = m \<lparr> ly_policy_count := ly_policy_count m + 1,
                  ly_total_exposure_units :=
                    ly_total_exposure_units m + p_total_exposure_units pol,
                  ly_written_premium := ly_written_premium m + wp,
                  ly_earned_premium := ly_earned_premium m + ep,
                  ly_claim_count := ly_claim_count m + length pol_claims \<rparr>
      in fold add_claim pol_claims m)"

text \<open>
  The loop \<open>for pol in current_policies\<close>. A policy without earned premium gets
  \<open>wp * random.uniform(0.7, 1.0)\<close>, a draw from the tape.
\<close>

fun lob_year_loop ::
  "(nat \<Rightarrow> premium_txn list) \<Rightarrow> (nat \<Rightarrow> premium_txn list) \<Rightarrow> (nat \<Rightarrow> claim list)
     \<Rightarrow> policy list \<Rightarrow> ((lob \<times> int) \<times> lob_year_row) list \<Rightarrow> rng
     \<Rightarrow> ((lob \<times> int) \<times> lob_year_row) list \<times> rng" where
  "lob_year_loop written earned claims_by_policy [] lob_year g = (lob_year, g)"
| "lob_year_loop written earned claims_by_policy (pol # pols) lob_year g =
     (let year = year_of (p_effective_date pol);
          l = p_line_of_business pol;
          key = (l, year);
          wp = sum_list (map pt_amount (written (p_policy_id pol)));
          wp = (if wp = 0 then p_total_premium pol else wp);
          ep = sum_list (map pt_amount (earned (p_policy_id pol)));
          (ep, g) = (if ep = 0 then (let (u, g) = uniform (7 / 10) 1 g in (wp * u, g))
                     else (ep, g));
          pol_claims = claims_by_policy (p_policy_id pol);
          lob_year = upsert key (lob_year_init l year) (add_policy pol wp ep pol_claims)
                       lob_year
      in lob_year_loop written earned claims_by_policy pols lob_year g)"

text \<open>The body of \<open>for key, m in lob_year.items()\<close>.\<close>

definition finish_lob_year :: "lob_year_row \<Rightarrow> lob_year_row" where
  "finish_lob_year m =
     (let m = m \<lparr> ly_total_lae := py_round (ly_paid_alae m + ly_paid_ulae m) 2 \<rparr>;
          m = m \<lparr> ly_net_incurred_loss :=
                    py_round (ly_paid_loss m - ly_salvage m - ly_subrogation m) 2 \<rparr>;
          m = m \<lparr> ly_total_incurred :=
                    py_round (ly_paid_loss m + ly_paid_alae m + ly_paid_ulae m
                              - ly_salvage m - ly_subrogation m) 2 \<rparr>;
          wp = ly_written_premium m;
          ep = ly_earned_premium m;
          exposure = ly_total_exposure_units m;
          cnt = ly_claim_count m;
          pol_cnt = ly_policy_count m;
          m = m \<lparr> ly_frequency := py_round (real cnt / max exposure 1) 6 \<rparr>;
          m = m \<lparr> ly_severity := py_round (ly_net_incurred_loss m / real (max cnt 1)) 2 \<rparr>;
          m = m \<lparr> ly_pure_premium := py_round (ly_net_incurred_loss m / max exposure 1) 2 \<rparr>;
          m = m \<lparr> ly_average_premium := py_round (wp / real (max pol_cnt 1)) 2 \<rparr>;
          m = m \<lparr> ly_loss_ratio := py_round (ly_net_incurred_loss m / max ep 1) 6 \<rparr>;
          m = m \<lparr> ly_lae_ratio := py_round (ly_total_lae m / max ep 1) 6 \<rparr>;
          m = m \<lparr> ly_combined_loss_lae_ratio :=
                    py_round ((ly_net_incurred_loss m + ly_total_lae m) / max ep 1) 6 \<rparr>
      in m \<lparr> ly_written_premium := py_round (ly_written_premium m) 2,
             ly_earned_premium := py_round (ly_earned_premium m) 2,
             ly_total_exposure_units := py_round (ly_total_exposure_units m) 2,
             ly_paid_loss := py_round (ly_paid_loss m) 2,
             ly_paid_alae := py_round (ly_paid_alae m) 2,
             ly_paid_ulae := py_round (ly_paid_ulae m) 2,
             ly_salvage := py_round (ly_salvage m) 2,
             ly_subrogation := py_round (ly_subrogation m) 2 \<rparr>)"

record uw_row =
  uw_line_of_business :: lob
  uw_policy_year :: int
  uw_written_premium :: real
  uw_earned_premium :: real
  uw_net_incurred_loss :: real
  uw_total_lae :: real
  uw_underwriting_expense :: real
  uw_underwriting_expense_ratio :: real
  uw_operating_expense :: real
  uw_operating_expense_ratio :: real
  uw_loss_ratio :: real
  uw_lae_ratio :: real
  uw_combined_ratio :: real
  uw_underwriting_profit :: real
  uw_underwriting_profit_ratio :: real

text \<open>The loop \<open>for m in gold_lob_year\<close> of the underwriting metrics, one draw per row.\<close>

fun gold_uw_loop :: "lob_year_row list \<Rightarrow> rng \<Rightarrow> uw_row list \<times> rng" where
  "gold_uw_loop [] g = ([], g)"
| "gold_uw_loop (m # ms) g =
     (let (u, g) = uniform (25 / 100) (40 / 100) g;
          uw_expense_ratio = py_round u 6;
          uw_expense = py_round (ly_written_premium m * uw_expense_ratio) 2;
          operating_expense = py_round (uw_expense + ly_total_lae m) 2;
          combined = py_round (ly_loss_ratio m + ly_lae_ratio m + uw_expense_ratio) 6;
          uw_profit = py_round (ly_earned_premium m - ly_net_incurred_loss m
                                - ly_total_lae m - uw_expense) 2;
          row = \<lparr> uw_line_of_business = ly_line_of_business m,
                  uw_policy_year = ly_policy_year m,
                  uw_written_premium = ly_written_premium m,
                  uw_earned_premium = ly_earned_premium m,
                  uw_net_incurred_loss = ly_net_incurred_loss m,
                  uw_total_lae = ly_total_lae m,
                  uw_underwriting_expense = uw_expense,
                  uw_underwriting_expense_ratio = uw_expense_ratio,
                  uw_operating_expense = operating_expense,
                  uw_operating_expense_ratio =
                    py_round (operating_expense / max (ly_earned_premium m) 1) 6,
                  uw_loss_ratio = ly_loss_ratio m,
                  uw_lae_ratio = ly_lae_ratio m,
                  uw_combined_ratio = combined,
                  uw_underwriting_profit = uw_profit,
                  uw_underwriting_profit_ratio =
                    py_round (uw_profit / max (ly_earned_premium m) 1) 6 \<rparr>;
          (rows, g) = gold_uw_loop ms g
      in (row # rows, g))"

record quote_metric =
  qm_line_of_business :: lob
  qm_quote_year :: int
  qm_total_quotes :: nat
  qm_bound_quotes :: nat
  qm_declined_quotes :: nat
  qm_expired_quotes :: nat
  qm_lost_quotes :: nat
  qm_total_quoted_premium :: real
  qm_bound_quoted_premium :: real
  qm_close_ratio :: real
  qm_average_quoted_premium :: real

definition quote_metric_init :: "lob \<Rightarrow> int \<Rightarrow> quote_metric" where
  "quote_metric_init l year =
     \<lparr> qm_line_of_business = l, qm_quote_year = year, qm_total_quotes = 0,
       qm_bound_quotes = 0, qm_declined_quotes = 0, qm_expired_quotes = 0,
       qm_lost_quotes = 0, qm_total_quoted_premium = 0, qm_bound_quoted_premium = 0,
       qm_close_ratio = 0, qm_average_quoted_premium = 0 \<rparr>"

definition add_quote :: "quote \<Rightarrow> quote_metric \<Rightarrow> quote_metric" where
  "add_quote q qm =
     (let qm = qm \<lparr> qm_total_quotes := qm_total_quotes qm + 1,
                    qm_total_quoted_premium :=
                      qm_total_quoted_premium qm + qt_quoted_premium q \<rparr>
      in if qt_status q = BOUND then
           qm \<lparr> qm_bound_quotes := qm_bound_quotes qm + 1,
                qm_bound_quoted_premium := qm_bound_quoted_premium qm + qt_quoted_premium q \<rparr>
         else if qt_status q = DECLINED then
           qm \<lparr> qm_declined_quotes := qm_declined_quotes qm + 1 \<rparr>
         else if qt_status q = QUOTE_EXPIRED then
           qm \<lparr> qm_expired_quotes := qm_expired_quotes qm + 1 \<rparr>
         else if qt_status q = LOST then
           qm \<lparr> qm_lost_quotes := qm_lost_quotes qm + 1 \<rparr>
         else qm)"

fun quote_metrics_loop ::
  "quote list \<Rightarrow> ((lob \<times> int) \<times> quote_metric) list \<Rightarrow> ((lob \<times> int) \<times> quote_metric) list" where
  "quote_metrics_loop [] qm_by_key = qm_by_key"
| "quote_metrics_loop (q # qs) qm_by_key =
     (let year = year_of (qt_quote_date q);
          l = qt_line_of_business q;
          key = (l, year)
      in quote_metrics_loop qs (upsert key (quote_metric_init l year) (add_quote q) qm_by_key))"

definition finish_quote_metric :: "quote_metric \<Rightarrow> quote_metric" where
  "finish_quote_metric qm =
     (let qm = qm \<lparr> qm_close_ratio :=
                      py_round (real (qm_bound_quotes qm) / real (max (qm_total_quotes qm) 1)) 6 \<rparr>;
          qm = qm \<lparr> qm_average_quoted_premium :=
                      py_round (qm_total_quoted_premium qm / real (max (qm_total_quotes qm) 1)) 2 \<rparr>;
          qm = qm \<lparr> qm_total_quoted_premium := py_round (qm_total_quoted_premium qm) 2 \<rparr>
      in qm \<lparr> qm_bound_quoted_premium := py_round (qm_bound_quoted_premium qm) 2 \<rparr>)"

record retention_row =
  rt_line_of_business :: lob
  rt_total_policies :: nat
  rt_renewal_policies :: nat
  rt_new_policies :: nat
  rt_retention_ratio :: real
  rt_new_business_ratio :: real

definition retention_init :: "lob \<Rightarrow> retention_row" where
  "retention_init l =
     \<lparr> rt_line_of_business = l, rt_total_policies = 0, rt_renewal_policies = 0,
       rt_new_policies = 0, rt_retention_ratio = 0, rt_new_business_ratio = 0 \<rparr>"

definition add_retention :: "policy \<Rightarrow> retention_row \<Rightarrow> retention_row" where
  "add_retention pol rm =
     (let rm = rm \<lparr> rt_total_policies := rt_total_policies rm + 1 \<rparr>
      in if p_renewal_of_policy_id pol \<noteq> None
         then rm \<lparr> rt_renewal_policies := rt_renewal_policies rm + 1 \<rparr>
         else rm \<lparr> rt_new_policies := rt_new_policies rm + 1 \<rparr>)"

fun retention_loop :: "policy list \<Rightarrow> (lob \<times> retention_row) list \<Rightarrow> (lob \<times> retention_row) list" where
  "retention_loop [] retention_by_lob = retention_by_lob"
| "retention_loop (pol # pols) retention_by_lob =
     (let l = p_line_of_business pol
      in retention_loop pols (upsert l (retention_init l) (add_retention pol) retention_by_lob))"

definition finish_retention :: "retention_row \<Rightarrow> retention_row" where
  "finish_retention rm =
     (let rm = rm \<lparr> rt_retention_ratio :=
                      py_round (real (rt_renewal_policies rm) / real (max (rt_total_policies rm) 1)) 6 \<rparr>
      in rm \<lparr> rt_new_business_ratio :=
                py_round (real (rt_new_policies rm) / real (max (rt_total_policies rm) 1)) 6 \<rparr>)"

text \<open>The four lists \<open>compute_gold_metrics\<close> returns.\<close>

record gold_metrics =
  gold_lob_year :: "lob_year_row list"
  gold_uw :: "uw_row list"
  gold_quotes :: "quote_metric list"
  gold_retention :: "retention_row list"

definition compute_gold_metrics ::
  "policy list \<Rightarrow> claim list \<Rightarrow> premium_txn list \<Rightarrow> coverage list \<Rightarrow> quote list \<Rightarrow> rng
     \<Rightarrow> gold_metrics \<times> rng" where
  "compute_gold_metrics policies claims premium_txns coverages quotes g =
     (let current_policies = get_current_policies policies;
          active_claims = get_active_claims claims;
          claims_by_policy = index_by c_policy_id active_claims;
          active_prem = filter (\<lambda>p. \<not> pt_is_reversal p) premium_txns;
          prem_written_by_policy =
            index_by pt_policy_id (filter (\<lambda>p. pt_transaction_type p = WRITTEN) active_prem);
          prem_earned_by_policy =
            index_by pt_policy_id (filter (\<lambda>p. pt_transaction_type p = EARNED) active_prem);
          (lob_year, g) =
            lob_year_loop prem_written_by_policy prem_earned_by_policy claims_by_policy
              current_policies [] g;
          lob_year_rows = map (\<lambda>(key, m). finish_lob_year m) lob_year;
          (uw_rows, g) = gold_uw_loop lob_year_rows g;
          qm_by_key = quote_metrics_loop quotes [];
          quote_rows = map (\<lambda>(key, qm). finish_quote_metric qm) qm_by_key;
          retention_by_lob = retention_loop current_policies [];
          retention_rows = map (\<lambda>(key, rm). finish_retention rm) retention_by_lob
      in (\<lparr> gold_lob_year = lob_year_rows, gold_uw = uw_rows,
            gold_quotes = quote_rows, gold_retention = retention_rows \<rparr>, g))"

text \<open>
  A row of the summary without the earned premium and the three ratios over it, and the
  fields of an underwriting row that are copied from the premium and loss sums.
\<close>

definition without_earned :: "lob_year_row \<Rightarrow> lob_year_row" where
  "without_earned m =
     m \<lparr> ly_earned_premium := 0, ly_loss_ratio := 0, ly_lae_ratio := 0,
         ly_combined_loss_lae_ratio := 0 \<rparr>"

definition uw_facts :: "uw_row \<Rightarrow> lob \<times> int \<times> real \<times> real \<times> real" where
  "uw_facts r =
     (uw_line_of_business r, uw_policy_year r, uw_written_premium r,
      uw_net_incurred_loss r, uw_total_lae r)"

section \<open>The scoring harness\<close>
























section \<open>Concrete inputs\<close>

text \<open>
  A small configuration, one insured, one agent and tapes of raw draws on which the
  generators are run below.
\<close>

definition w_cfg :: config where
  "w_cfg = \<lparr> NUM_POLICIES = 1, NUM_COVERAGES = 3, NUM_CLAIMS = 2,
     NUM_CLAIM_TRANSACTIONS = 4, NUM_QUOTES = 2, NUM_PREMIUM_TRANSACTIONS = 4 \<rparr>"

definition w_insureds :: "insured list" where
  "w_insureds = [\<lparr> insured_id = 1, insured_state = ''AL'' \<rparr>]"

definition w_agents :: "agent list" where
  "w_agents = [\<lparr> agent_id = 1 \<rparr>]"

text \<open>The tape on which every raw draw is 0.\<close>

definition w_tape :: "nat \<Rightarrow> nat" where
  "w_tape = (\<lambda>n. 0)"

text \<open>
  The tape whose 14th draw selects three versions, whose 27th draw gives the second
  version the offset 90 and whose other draws are 0.
\<close>

definition w_tape3 :: "nat \<Rightarrow> nat" where
  "w_tape3 = (\<lambda>n. if n = 13 then 2 else if n = 26 then 80 else 0)"

definition w_policy_v1 :: policy where
  "w_policy_v1 = \<lparr> p_row_id = 1, p_policy_id = 1, p_version_number = 1,
     p_insured_id = 1, p_agent_id = 1, p_line_of_business = HO, p_product_tier = STD,
     p_effective_date = 737425, p_expiration_date = 737605,
     p_binding_date = 737424, p_issue_date = 737424,
     p_system_entry_date = 737424, p_booking_date = 737424,
     p_policy_status = ACTIVE, p_policy_term_months = 6,
     p_state = ''AL'', p_territory = 1, p_total_premium = 200,
     p_total_exposure_units = 1, p_deductible_amount = 250,
     p_policy_limit = 100000, p_underwriter_id = 1,
     p_cancellation_date = None, p_cancellation_reason = None,
     p_renewal_of_policy_id = None, p_source_system = LEGACY_AS400,
     p_is_current_record = False, p_is_deleted = True,
     p_valid_from = 737424, p_valid_to = Some 737434 \<rparr>"

definition w_policy_v2 :: policy where
  "w_policy_v2 = \<lparr> p_row_id = 2, p_policy_id = 1, p_version_number = 2,
     p_insured_id = 1, p_agent_id = 1, p_line_of_business = HO, p_product_tier = STD,
     p_effective_date = 737425, p_expiration_date = 737605,
     p_binding_date = 737424, p_issue_date = 737424,
     p_system_entry_date = 737424, p_booking_date = 737424,
     p_policy_status = CANCELLED, p_policy_term_months = 6,
     p_state = ''AL'', p_territory = 1, p_total_premium = 170,
     p_total_exposure_units = 9 / 10, p_deductible_amount = 250,
     p_policy_limit = 100000, p_underwriter_id = 1,
     p_cancellation_date = Some 737455, p_cancellation_reason = Some NON_PAY,
     p_renewal_of_policy_id = None, p_source_system = LEGACY_AS400,
     p_is_current_record = True, p_is_deleted = False,
     p_valid_from = 737434, p_valid_to = None \<rparr>"

definition w_policies :: "policy list" where
  "w_policies = [w_policy_v1, w_policy_v2]"






text \<open>
  A claim, the tape on which its one transaction is a payment that is voided, and the two
  rows the generator makes of it.
\<close>

definition w_claim :: claim where
  "w_claim = \<lparr> c_claim_id = 1, c_policy_id = 1, c_insured_id = 1, c_line_of_business = HO,
     c_loss_date = 737425, c_report_date = 737425, c_entry_date = 737425,
     c_processing_date = 737425, c_claim_status = CLOSED, c_cause_of_loss = FIRE,
     c_loss_state = ''AL'', c_claimant_type = FIRST_PARTY, c_adjuster_id = 1,
     c_reserve_amount = 500, c_paid_loss_amount = 0, c_paid_alae_amount = 0,
     c_paid_ulae_amount = 0, c_salvage_amount = 0, c_subrogation_amount = 0,
     c_total_incurred = 500, c_catastrophe_code = None, c_litigation_flag = True,
     c_fraud_indicator = True, c_close_date = Some 737455, c_reopen_date = None,
     c_source_system = LEGACY_AS400, c_is_deleted = False \<rparr>"

definition w_tape_pay :: "nat \<Rightarrow> nat" where
  "w_tape_pay = (\<lambda>n. if n = 1 then 2 else 0)"

definition w_payment :: claim_txn where
  "w_payment = \<lparr> ct_transaction_id = 1, ct_claim_id = 1,
     ct_transaction_type = PAYMENT, ct_transaction_date = 737425,
     ct_posting_date = 737425, ct_check_date = Some 737425,
     ct_amount = - 5000, ct_category = LOSS, ct_is_void = False,
     ct_void_of_transaction_id = None, ct_load_ts = (737425, 0) \<rparr>"

definition w_void :: claim_txn where
  "w_void = \<lparr> ct_transaction_id = 2, ct_claim_id = 1,
     ct_transaction_type = VOID, ct_transaction_date = 737426,
     ct_posting_date = 737426, ct_check_date = None, ct_amount = 5000,
     ct_category = LOSS, ct_is_void = True,
     ct_void_of_transaction_id = Some 1, ct_load_ts = (737426, 0) \<rparr>"

text \<open>
  The premium transactions of the policy \<open>w_policies\<close> on the all-zero tape, a written
  premium and its reversal, and on the tape that selects an endorsement backdated by five
  days.
\<close>

definition w_tape_end :: "nat \<Rightarrow> nat" where
  "w_tape_end = (\<lambda>n. if n = 1 then 6 else if n = 5 then 5 else 0)"

definition w_written :: premium_txn where
  "w_written = \<lparr> pt_transaction_id = 1, pt_policy_id = 1,
     pt_line_of_business = HO, pt_transaction_type = WRITTEN,
     pt_transaction_date = 737425, pt_accounting_date = 737425,
     pt_booking_date = 737425, pt_effective_date = 737425,
     pt_amount = - 2000, pt_state = ''AL'', pt_agent_id = 1,
     pt_is_reversal = False, pt_reversal_of_transaction_id = None,
     pt_source_system = LEGACY_AS400, pt_load_ts = (737425, 0) \<rparr>"

definition w_written_rev :: premium_txn where
  "w_written_rev = \<lparr> pt_transaction_id = 2, pt_policy_id = 1,
     pt_line_of_business = HO, pt_transaction_type = REVERSAL,
     pt_transaction_date = 737426, pt_accounting_date = 737426,
     pt_booking_date = 737426, pt_effective_date = 737425,
     pt_amount = 2000, pt_state = ''AL'', pt_agent_id = 1,
     pt_is_reversal = True, pt_reversal_of_transaction_id = Some 1,
     pt_source_system = LEGACY_AS400, pt_load_ts = (737426, 0) \<rparr>"

definition w_endorsement :: premium_txn where
  "w_endorsement = \<lparr> pt_transaction_id = 1, pt_policy_id = 1,
     pt_line_of_business = HO, pt_transaction_type = ENDORSEMENT,
     pt_transaction_date = 737425, pt_accounting_date = 737425,
     pt_booking_date = 737425, pt_effective_date = 737420,
     pt_amount = - 2000, pt_state = ''AL'', pt_agent_id = 1,
     pt_is_reversal = False, pt_reversal_of_transaction_id = None,
     pt_source_system = LEGACY_AS400, pt_load_ts = (737425, 0) \<rparr>"

definition w_endorsement_rev :: premium_txn where
  "w_endorsement_rev = \<lparr> pt_transaction_id = 2, pt_policy_id = 1,
     pt_line_of_business = HO, pt_transaction_type = REVERSAL,
     pt_transaction_date = 737426, pt_accounting_date = 737426,
     pt_booking_date = 737426, pt_effective_date = 737420,
     pt_amount = 2000, pt_state = ''AL'', pt_agent_id = 1,
     pt_is_reversal = True, pt_reversal_of_transaction_id = Some 1,
     pt_source_system = LEGACY_AS400, pt_load_ts = (737426, 0) \<rparr>"

text \<open>The tape on which the first quote keeps its \<open>bound_policy_id\<close>.\<close>

definition w_tape_q :: "nat \<Rightarrow> nat" where
  "w_tape_q = (\<lambda>n. if n = 10 then 6755399441055744 else 0)"

section \<open>Facts about the random source\<close>

lemma randint_bounds:
  "a \<le> b \<Longrightarrow> a \<le> fst (randint a b g) \<and> fst (randint a b g) \<le> b"
proof -
  assume ab: "a \<le> b"
  have pos: "0 < nat (b - a + 1)" using ab by simp
  have "fst g (snd g) mod nat (b - a + 1) < nat (b - a + 1)"
    using pos by (rule mod_less_divisor)
  then have "int (fst g (snd g) mod nat (b - a + 1)) < b - a + 1" by linarith
  then show ?thesis by (simp add: randint_def next_raw_def)
qed

lemma choice_mem: "xs \<noteq> [] \<Longrightarrow> fst (choice xs g) \<in> set xs"
  by (simp add: choice_def next_raw_def)

lemmas rng_defs = next_raw_def randint_def random_def uniform_def choice_def rand_date_def
  rand_premium_def maybe_null_def py_round_def round_half_even_def days_before_year_def
  jan_first_def dec_last_def rand_ts_def

section \<open>The versioned-policy generator\<close>

lemma gen_policy_version_fields:
  "p_policy_id (fst (gen_policy_version b v rid g)) = b_policy_id b"
  "p_version_number (fst (gen_policy_version b v rid g)) = v + 1"
  "p_is_current_record (fst (gen_policy_version b v rid g)) = (v = b_num_versions b - 1)"
  "p_binding_date (fst (gen_policy_version b v rid g)) = b_binding b"
  "p_issue_date (fst (gen_policy_version b v rid g)) = b_issue b"
  "p_system_entry_date (fst (gen_policy_version b v rid g)) = b_system_entry b"
  "p_booking_date (fst (gen_policy_version b v rid g)) = b_booking b"
  "p_effective_date (fst (gen_policy_version b v rid g)) = b_eff b"
  by (simp_all add: gen_policy_version_def Let_def split_beta)

lemma gen_policy_version_deleted:
  "p_is_deleted (fst (gen_policy_version b v rid g)) \<Longrightarrow> v \<noteq> b_num_versions b - 1"
  by (simp add: gen_policy_version_def Let_def split_beta split: if_splits)

lemma gen_policy_version_valid_to:
  "(p_valid_to (fst (gen_policy_version b v rid g)) = None) = (v = b_num_versions b - 1)"
  by (simp add: gen_policy_version_def Let_def split_beta)

lemma gen_policy_base_props:
  assumes "gen_policy_base insureds agents i g = Inr (b, g')"
  shows "b_policy_id b = i"
    and "b_num_versions b \<in> {1, 2, 3}"
    and "b_binding b \<le> b_issue b" and "b_issue b \<le> b_system_entry b"
    and "b_system_entry b \<le> b_booking b"
    and "b_binding b < b_eff b"
proof -
  from assms have ne: "insureds \<noteq> []" "agents \<noteq> []"
    by (auto simp: gen_policy_base_def Let_def split_beta split: if_splits)
  have b: "b = fst (projr (gen_policy_base insureds agents i g))"
    using assms by simp
  show "b_policy_id b = i"
    unfolding b using ne by (simp add: gen_policy_base_def Let_def split_beta)
  have c: "fst (if c then choice [2, 2, 3::nat] h else (1, h')) \<in> {1, 2, 3}" for c h h'
    using choice_mem [of "[2, 2, 3::nat]" h] by (cases c) auto
  show "b_num_versions b \<in> {1, 2, 3}"
    unfolding b gen_policy_base_def Let_def split_beta using ne
    by (simp only: if_False sum.sel fst_conv policy_base.simps c)
  show "b_binding b \<le> b_issue b"
    unfolding b using ne randint_bounds [of 0 14]
    by (simp add: gen_policy_base_def Let_def split_beta)
  show "b_issue b \<le> b_system_entry b"
    unfolding b using ne randint_bounds [of 0 5]
    by (simp add: gen_policy_base_def Let_def split_beta)
  show "b_system_entry b \<le> b_booking b"
    unfolding b using ne randint_bounds [of 0 10]
    by (simp add: gen_policy_base_def Let_def split_beta)
  have "1 \<le> fst (randint 1 30 h)" for h
    using randint_bounds [of 1 30 h] by simp
  then have "0 < fst (randint 1 30 h)" for h
    by (metis less_le_trans zero_less_one)
  then show "b_binding b < b_eff b"
    unfolding b using ne
    by (simp add: gen_policy_base_def Let_def split_beta)
qed

lemma gen_policy_versions_rows:
  "gen_policy_versions b vs rid g = (rows, rid', g') \<Longrightarrow>
     map p_version_number rows = map Suc vs \<and>
     map p_is_current_record rows = map (\<lambda>v. v = b_num_versions b - 1) vs \<and>
     (\<forall>p \<in> set rows. p_policy_id p = b_policy_id b \<and>
        p_binding_date p = b_binding b \<and> p_issue_date p = b_issue b \<and>
        p_system_entry_date p = b_system_entry b \<and> p_booking_date p = b_booking b \<and>
        p_effective_date p = b_eff b \<and>
        (p_is_deleted p \<longrightarrow> \<not> p_is_current_record p) \<and>
        ((p_valid_to p = None) = p_is_current_record p))"
proof (induction vs arbitrary: rid g rows rid' g')
  case Nil
  then show ?case by simp
next
  case (Cons v vs)
  obtain p g1 where pv: "gen_policy_version b v (rid + 1) g = (p, g1)"
    by (cases "gen_policy_version b v (rid + 1) g")
  obtain ps r2 g2 where rest: "gen_policy_versions b vs (rid + 1) g1 = (ps, r2, g2)"
    by (cases "gen_policy_versions b vs (rid + 1) g1")
  from Cons.prems pv rest have rows: "rows = p # ps" by simp
  have p: "p = fst (gen_policy_version b v (rid + 1) g)" using pv by simp
  note ih = Cons.IH [OF rest]
  show ?case unfolding rows
    using ih gen_policy_version_deleted [of b v "rid + 1" g]
    by (simp add: p gen_policy_version_fields gen_policy_version_valid_to)
qed

lemma filter_last_index: "1 \<le> n \<Longrightarrow> filter (\<lambda>k. k = n) (map Suc [0..<n]) = [n]"
proof -
  assume "1 \<le> n"
  then obtain m where n: "n = Suc m" by (cases n) auto
  have "filter (\<lambda>k. k = Suc m) (map Suc [0..<m]) = []"
    by (auto simp: filter_empty_conv)
  then show ?thesis by (simp add: n)
qed

lemma gen_policy_versions_block:
  assumes run: "gen_policy_versions b [0..<b_num_versions b] rid g = (rows, rid', g')"
    and nv: "1 \<le> b_num_versions b"
  shows "\<exists>cur. filter p_is_current_record rows = [cur] \<and>
           p_version_number cur = b_num_versions b"
    and "\<forall>p \<in> set rows. p_version_number p \<le> b_num_versions b"
proof -
  note r = gen_policy_versions_rows [OF run]
  from r have vers: "map p_version_number rows = map Suc [0..<b_num_versions b]" by simp
  from r have len: "length rows = b_num_versions b"
    using map_eq_imp_length_eq [of p_version_number rows Suc "[0..<b_num_versions b]"]
    by simp
  have cur_iff:
    "p_is_current_record (rows ! k) = (p_version_number (rows ! k) = b_num_versions b)"
    if "k < length rows" for k
  proof -
    from r have "map p_is_current_record rows ! k =
        map (\<lambda>v. v = b_num_versions b - 1) [0..<b_num_versions b] ! k" by simp
    moreover from vers
    have "map p_version_number rows ! k = map Suc [0..<b_num_versions b] ! k"
      by simp
    ultimately show ?thesis using that len nv by auto
  qed
  have cur_iff': "p_is_current_record p = (p_version_number p = b_num_versions b)"
    if "p \<in> set rows" for p
    using that cur_iff by (auto simp: in_set_conv_nth)
  have "filter p_is_current_record rows =
      filter (\<lambda>p. p_version_number p = b_num_versions b) rows"
    by (rule filter_cong) (auto simp: cur_iff')
  then have "map p_version_number (filter p_is_current_record rows) =
      filter (\<lambda>k. k = b_num_versions b) (map p_version_number rows)"
    by (simp add: filter_map comp_def)
  also have "\<dots> = [b_num_versions b]" using nv by (simp add: vers filter_last_index)
  finally have m:
    "map p_version_number (filter p_is_current_record rows) = [b_num_versions b]" .
  then obtain cur where "filter p_is_current_record rows = [cur]"
    by (cases "filter p_is_current_record rows") auto
  with m show "\<exists>cur. filter p_is_current_record rows = [cur] \<and>
           p_version_number cur = b_num_versions b" by auto
  show "\<forall>p \<in> set rows. p_version_number p \<le> b_num_versions b"
  proof
    fix p assume "p \<in> set rows"
    then have "p_version_number p \<in> set (map p_version_number rows)" by simp
    then show "p_version_number p \<le> b_num_versions b" unfolding vers by auto
  qed
qed

lemma gen_policies_loop_rows:
  "gen_policies_loop insureds agents ids rid g = Inr (ps, rid', g') \<Longrightarrow>
     \<forall>p \<in> set ps. p_policy_id p \<in> set ids \<and>
       p_binding_date p \<le> p_issue_date p \<and> p_issue_date p \<le> p_system_entry_date p \<and>
       p_system_entry_date p \<le> p_booking_date p \<and>
       p_binding_date p < p_effective_date p \<and>
       (p_is_deleted p \<longrightarrow> \<not> p_is_current_record p) \<and>
       ((p_valid_to p = None) = p_is_current_record p)"
proof (induction ids arbitrary: rid g ps rid' g')
  case Nil
  then show ?case by simp
next
  case (Cons i ids)
  from Cons.prems obtain b g1 where base: "gen_policy_base insureds agents i g = Inr (b, g1)"
    by (auto split: sum.splits)
  obtain rows r2 g2 where blk:
    "gen_policy_versions b [0..<b_num_versions b] rid g1 = (rows, r2, g2)"
    by (cases "gen_policy_versions b [0..<b_num_versions b] rid g1")
  from Cons.prems base blk obtain rest where
    rest: "gen_policies_loop insureds agents ids r2 g2 = Inr (rest, rid', g')"
    and ps: "ps = rows @ rest"
    by (auto split: sum.splits)
  note bp = gen_policy_base_props [OF base]
  note r = gen_policy_versions_rows [OF blk]
  have "\<forall>p \<in> set rows. p_policy_id p = i \<and>
       p_binding_date p \<le> p_issue_date p \<and> p_issue_date p \<le> p_system_entry_date p \<and>
       p_system_entry_date p \<le> p_booking_date p \<and>
       p_binding_date p < p_effective_date p \<and>
       (p_is_deleted p \<longrightarrow> \<not> p_is_current_record p) \<and>
       ((p_valid_to p = None) = p_is_current_record p)"
    using r bp by simp
  with Cons.IH [OF rest] show ?case unfolding ps by auto
qed

lemma gen_policies_loop_current:
  "gen_policies_loop insureds agents ids rid g = Inr (ps, rid', g') \<Longrightarrow>
   distinct ids \<Longrightarrow> i \<in> set ids \<Longrightarrow>
     \<exists>cur. filter (\<lambda>p. p_policy_id p = i \<and> p_is_current_record p) ps = [cur] \<and>
       (\<forall>p \<in> set ps. p_policy_id p = i \<longrightarrow> p_version_number p \<le> p_version_number cur)"
proof (induction ids arbitrary: rid g ps rid' g')
  case Nil
  then show ?case by simp
next
  case (Cons j ids)
  from Cons.prems(1) obtain b g1 where
    base: "gen_policy_base insureds agents j g = Inr (b, g1)"
    by (auto split: sum.splits)
  obtain rows r2 g2 where blk:
    "gen_policy_versions b [0..<b_num_versions b] rid g1 = (rows, r2, g2)"
    by (cases "gen_policy_versions b [0..<b_num_versions b] rid g1")
  from Cons.prems(1) base blk obtain rest where
    rest: "gen_policies_loop insureds agents ids r2 g2 = Inr (rest, rid', g')"
    and ps: "ps = rows @ rest"
    by (auto split: sum.splits)
  note bp = gen_policy_base_props [OF base]
  from bp(2) have nv: "1 \<le> b_num_versions b" by auto
  note r = gen_policy_versions_rows [OF blk]
  from r bp(1) have rows_id: "\<forall>p \<in> set rows. p_policy_id p = j" by simp
  note rest_ids = gen_policies_loop_rows [OF rest]
  show ?case
  proof (cases "i = j")
    case True
    with Cons.prems(2) have "i \<notin> set ids" by simp
    with rest_ids have none: "\<forall>p \<in> set rest. p_policy_id p \<noteq> i" by auto
    then have f_rest: "filter (\<lambda>p. p_policy_id p = i \<and> p_is_current_record p) rest = []"
      by (auto simp: filter_empty_conv)
    have f_rows: "filter (\<lambda>p. p_policy_id p = i \<and> p_is_current_record p) rows
        = filter p_is_current_record rows"
      by (rule filter_cong) (use rows_id True in auto)
    from gen_policy_versions_block [OF blk nv] obtain cur where
      cur: "filter p_is_current_record rows = [cur]" "p_version_number cur = b_num_versions b"
      and le: "\<forall>p \<in> set rows. p_version_number p \<le> b_num_versions b" by blast
    show ?thesis unfolding ps using cur le none f_rest f_rows by auto
  next
    case False
    with Cons.prems(3) have i: "i \<in> set ids" by simp
    from Cons.prems(2) have d: "distinct ids" by simp
    from False rows_id
    have "filter (\<lambda>p. p_policy_id p = i \<and> p_is_current_record p) rows = []"
      by (auto simp: filter_empty_conv)
    with Cons.IH [OF rest d i] False rows_id show ?thesis unfolding ps by auto
  qed
qed

lemma gen_policies_loop_total:
  "insureds \<noteq> [] \<Longrightarrow> agents \<noteq> [] \<Longrightarrow>
     \<exists>ps rid' g'. gen_policies_loop insureds agents ids rid g = Inr (ps, rid', g')"
proof (induction ids arbitrary: rid g)
  case Nil
  then show ?case by simp
next
  case (Cons i ids)
  from Cons.prems obtain b g1 where base: "gen_policy_base insureds agents i g = Inr (b, g1)"
    by (simp add: gen_policy_base_def Let_def split_beta)
  obtain rows r2 g2 where blk:
    "gen_policy_versions b [0..<b_num_versions b] rid g1 = (rows, r2, g2)"
    by (cases "gen_policy_versions b [0..<b_num_versions b] rid g1")
  from Cons.IH [OF Cons.prems, of r2 g2] obtain rest r3 g3 where
    "gen_policies_loop insureds agents ids r2 g2 = Inr (rest, r3, g3)" by blast
  with base blk show ?case by simp
qed

lemma gen_policies_with_cdc_loop:
  assumes "gen_policies_with_cdc cfg insureds agents g = Inr (policies, g')"
  shows "\<exists>rid'. gen_policies_loop insureds agents [1..<NUM_POLICIES cfg + 1] 0 g
           = Inr (policies, rid', g')"
  using assms by (auto simp: gen_policies_with_cdc_def split: sum.splits)

lemma gen_policies_with_cdc_total:
  assumes "insureds \<noteq> []" and "agents \<noteq> []"
  shows "\<exists>policies g'. gen_policies_with_cdc cfg insureds agents g = Inr (policies, g')"
proof -
  from gen_policies_loop_total [OF assms, of "[1..<NUM_POLICIES cfg + 1]" 0 g]
  obtain ps rid' g' where
    "gen_policies_loop insureds agents [1..<NUM_POLICIES cfg + 1] 0 g = Inr (ps, rid', g')"
    by blast
  then show ?thesis by (simp add: gen_policies_with_cdc_def)
qed

text \<open>Every identifier from 1 to \<open>NUM_POLICIES\<close> has its current row, and soft deletion
  never touches it.\<close>

lemma gen_policies_current_row:
  assumes run: "gen_policies_with_cdc cfg insureds agents g = Inr (policies, g')"
    and i: "i \<in> {1..NUM_POLICIES cfg}"
  shows "\<exists>cur. filter (\<lambda>p. p_policy_id p = i \<and> p_is_current_record p) policies = [cur] \<and>
           p_policy_id cur = i \<and> p_is_current_record cur \<and> \<not> p_is_deleted cur \<and>
           (\<forall>p \<in> set policies. p_policy_id p = i \<longrightarrow>
              p_version_number p \<le> p_version_number cur)"
proof -
  from gen_policies_with_cdc_loop [OF run] obtain rid' where
    loop: "gen_policies_loop insureds agents [1..<NUM_POLICIES cfg + 1] 0 g
           = Inr (policies, rid', g')" ..
  have d: "distinct [1..<NUM_POLICIES cfg + 1]" by simp
  from i have m: "i \<in> set [1..<NUM_POLICIES cfg + 1]" by auto
  from gen_policies_loop_current [OF loop d m] obtain cur where
    f: "filter (\<lambda>p. p_policy_id p = i \<and> p_is_current_record p) policies = [cur]"
    and le: "\<forall>p \<in> set policies. p_policy_id p = i \<longrightarrow>
              p_version_number p \<le> p_version_number cur" by blast
  have "cur \<in> set (filter (\<lambda>p. p_policy_id p = i \<and> p_is_current_record p) policies)"
    unfolding f by simp
  then have c: "cur \<in> set policies" "p_policy_id cur = i" "p_is_current_record cur"
    by auto
  with gen_policies_loop_rows [OF loop] have "\<not> p_is_deleted cur" by blast
  with f le c show ?thesis by blast
qed

lemma gen_policies_ids:
  assumes run: "gen_policies_with_cdc cfg insureds agents g = Inr (policies, g')"
  shows "p_policy_id ` set policies = {1..NUM_POLICIES cfg}"
proof
  from gen_policies_with_cdc_loop [OF run] obtain rid' where
    loop: "gen_policies_loop insureds agents [1..<NUM_POLICIES cfg + 1] 0 g
           = Inr (policies, rid', g')" ..
  from gen_policies_loop_rows [OF loop]
  show "p_policy_id ` set policies \<subseteq> {1..NUM_POLICIES cfg}" by auto
next
  show "{1..NUM_POLICIES cfg} \<subseteq> p_policy_id ` set policies"
  proof
    fix i assume "i \<in> {1..NUM_POLICIES cfg}"
    from gen_policies_current_row [OF run this] obtain cur where
      f: "filter (\<lambda>p. p_policy_id p = i \<and> p_is_current_record p) policies = [cur]"
      and c: "p_policy_id cur = i" by blast
    have "cur \<in> set (filter (\<lambda>p. p_policy_id p = i \<and> p_is_current_record p) policies)"
      unfolding f by simp
    then have "cur \<in> set policies" by simp
    with c show "i \<in> p_policy_id ` set policies" by auto
  qed
qed

text \<open>The run of the generator on the all-zero tape: one policy with two versions.\<close>

lemma w_policies_run:
  "gen_policies_with_cdc w_cfg w_insureds w_agents (w_tape, 0) = Inr (w_policies, (w_tape, 41))"
  by (simp add: gen_policies_with_cdc_def gen_policy_base_def gen_policy_version_def
      w_cfg_def w_insureds_def w_agents_def w_tape_def w_policies_def w_policy_v1_def
      w_policy_v2_def rng_defs Let_def LOB_CODES_def POLICY_STATUSES_def SOURCE_SYSTEMS_def
      upt_rec)

text \<open>
  Claim C1. For every policy identifier that occurs in the generated rows, exactly one row
  of that identifier has \<open>is_current_record\<close> set, and the version number of that row is
  the largest version number among the rows of the identifier.
\<close>

theorem current_record_unique_and_latest:
  assumes run: "gen_policies_with_cdc cfg insureds agents g = Inr (policies, g')"
    and i: "i \<in> p_policy_id ` set policies"
  shows "\<exists>cur. filter (\<lambda>p. p_policy_id p = i \<and> p_is_current_record p) policies = [cur] \<and>
           p_version_number cur =
             Max (p_version_number ` {p \<in> set policies. p_policy_id p = i})"
proof -
  from i gen_policies_ids [OF run] have "i \<in> {1..NUM_POLICIES cfg}" by simp
  from gen_policies_current_row [OF run this] obtain cur where
    f: "filter (\<lambda>p. p_policy_id p = i \<and> p_is_current_record p) policies = [cur]"
    and c: "p_policy_id cur = i"
    and le: "\<forall>p \<in> set policies. p_policy_id p = i \<longrightarrow>
              p_version_number p \<le> p_version_number cur" by blast
  have "cur \<in> set (filter (\<lambda>p. p_policy_id p = i \<and> p_is_current_record p) policies)"
    unfolding f by simp
  then have mem: "cur \<in> {p \<in> set policies. p_policy_id p = i}" by simp
  have "Max (p_version_number ` {p \<in> set policies. p_policy_id p = i}) = p_version_number cur"
  proof (rule Max_eqI)
    show "finite (p_version_number ` {p \<in> set policies. p_policy_id p = i})" by simp
    show "p_version_number cur \<in> p_version_number ` {p \<in> set policies. p_policy_id p = i}"
      using mem by (rule imageI)
    fix y assume "y \<in> p_version_number ` {p \<in> set policies. p_policy_id p = i}"
    with le show "y \<le> p_version_number cur" by auto
  qed
  with f show ?thesis by auto
qed

theorem current_record_unique_and_latest_witness:
  "gen_policies_with_cdc w_cfg w_insureds w_agents (w_tape, 0) = Inr (w_policies, (w_tape, 41)) \<and>
   1 \<in> p_policy_id ` set w_policies \<and>
   (\<exists>cur. filter (\<lambda>p. p_policy_id p = 1 \<and> p_is_current_record p) w_policies = [cur] \<and>
      p_version_number cur =
        Max (p_version_number ` {p \<in> set w_policies. p_policy_id p = 1}))"
proof -
  have mem: "1 \<in> p_policy_id ` set w_policies"
    by (simp add: w_policies_def w_policy_v1_def)
  from current_record_unique_and_latest [OF w_policies_run mem] w_policies_run mem
  show ?thesis by blast
qed

text \<open>
  Claim C8. Every policy-version row has
  \<open>binding_date \<le> issue_date \<le> system_entry_date \<le> booking_date\<close>. The binding date is
  not after the effective date either: the generator puts it 1 to 30 days before.
\<close>

theorem policy_dates_ordered:
  assumes run: "gen_policies_with_cdc cfg insureds agents g = Inr (policies, g')"
    and p: "p \<in> set policies"
  shows "p_binding_date p \<le> p_issue_date p \<and> p_issue_date p \<le> p_system_entry_date p \<and>
         p_system_entry_date p \<le> p_booking_date p \<and> p_binding_date p < p_effective_date p"
proof -
  from gen_policies_with_cdc_loop [OF run] obtain rid' where
    loop: "gen_policies_loop insureds agents [1..<NUM_POLICIES cfg + 1] 0 g
           = Inr (policies, rid', g')" ..
  from gen_policies_loop_rows [OF loop] p show ?thesis by blast
qed

theorem policy_dates_ordered_witness:
  "gen_policies_with_cdc w_cfg w_insureds w_agents (w_tape, 0) = Inr (w_policies, (w_tape, 41)) \<and>
   w_policy_v2 \<in> set w_policies \<and>
   p_binding_date w_policy_v2 \<le> p_issue_date w_policy_v2 \<and>
   p_issue_date w_policy_v2 \<le> p_system_entry_date w_policy_v2 \<and>
   p_system_entry_date w_policy_v2 \<le> p_booking_date w_policy_v2 \<and>
   p_binding_date w_policy_v2 < p_effective_date w_policy_v2"
proof -
  have mem: "w_policy_v2 \<in> set w_policies" by (simp add: w_policies_def)
  from policy_dates_ordered [OF w_policies_run mem] w_policies_run mem
  show ?thesis by blast
qed

text \<open>
  Claim C10. With a non-empty pool of insureds and of agents the generator returns, and
  for every policy identifier from 1 to \<open>NUM_POLICIES\<close> the rows it returns hold exactly one
  row that is current and not deleted: \<open>get_current_policies\<close> keeps exactly one row of the
  identifier, and no row is both soft-deleted and current.
\<close>

theorem current_state_exists_and_unique:
  assumes ins: "insureds \<noteq> []" and ags: "agents \<noteq> []"
    and i: "i \<in> {1..NUM_POLICIES cfg}"
  shows "\<exists>policies g'. gen_policies_with_cdc cfg insureds agents g = Inr (policies, g') \<and>
           (\<exists>cur. filter (\<lambda>p. p_policy_id p = i) (get_current_policies policies) = [cur] \<and>
              p_is_current_record cur \<and> \<not> p_is_deleted cur) \<and>
           (\<forall>p \<in> set policies. p_is_deleted p \<longrightarrow> \<not> p_is_current_record p)"
proof -
  from gen_policies_with_cdc_total [OF ins ags] obtain policies g' where
    run: "gen_policies_with_cdc cfg insureds agents g = Inr (policies, g')" by blast
  from gen_policies_with_cdc_loop [OF run] obtain rid' where
    loop: "gen_policies_loop insureds agents [1..<NUM_POLICIES cfg + 1] 0 g
           = Inr (policies, rid', g')" ..
  note rows = gen_policies_loop_rows [OF loop]
  from rows have del: "\<forall>p \<in> set policies. p_is_deleted p \<longrightarrow> \<not> p_is_current_record p"
    by blast
  from gen_policies_current_row [OF run i] obtain cur where
    f: "filter (\<lambda>p. p_policy_id p = i \<and> p_is_current_record p) policies = [cur]"
    and c: "p_is_current_record cur" "\<not> p_is_deleted cur" by blast
  have "filter (\<lambda>p. p_policy_id p = i) (get_current_policies policies) =
      filter (\<lambda>p. p_policy_id p = i \<and> p_is_current_record p) policies"
    unfolding get_current_policies_def filter_filter
    by (rule filter_cong) (use del in auto)
  with f c del run show ?thesis by auto
qed

theorem current_state_exists_and_unique_witness:
  "w_insureds \<noteq> [] \<and> w_agents \<noteq> [] \<and> 1 \<in> {1..NUM_POLICIES w_cfg} \<and>
   filter (\<lambda>p. p_policy_id p = 1) (get_current_policies w_policies) = [w_policy_v2] \<and>
   p_is_current_record w_policy_v2 \<and> \<not> p_is_deleted w_policy_v2 \<and>
   p_is_deleted w_policy_v1 \<and> \<not> p_is_current_record w_policy_v1"
proof -
  have h: "w_insureds \<noteq> []" "w_agents \<noteq> []" "1 \<in> {1..NUM_POLICIES w_cfg}"
    by (simp_all add: w_insureds_def w_agents_def w_cfg_def)
  from current_state_exists_and_unique [OF h, of "(w_tape, 0)"] obtain cur where
    "filter (\<lambda>p. p_policy_id p = 1) (get_current_policies w_policies) = [cur]"
    "p_is_current_record cur" "\<not> p_is_deleted cur"
    unfolding w_policies_run by auto
  moreover have "filter (\<lambda>p. p_policy_id p = 1) (get_current_policies w_policies) = [w_policy_v2]"
    by (simp add: get_current_policies_def w_policies_def w_policy_v1_def w_policy_v2_def)
  moreover have "p_is_deleted w_policy_v1 \<and> \<not> p_is_current_record w_policy_v1"
    by (simp add: w_policy_v1_def)
  ultimately show ?thesis using h by simp
qed

text \<open>
  Claim C2. \<open>_valid_from\<close> is not increasing in the version number. Each version draws its
  own \<open>random.randint(10, 90)\<close> and multiplies it by \<open>v\<close>, so a large draw for the second
  version and a small one for the third put the third version before the second. On the
  tape \<open>w_tape3\<close> the one policy has three versions; the second is valid from day 737514
  and the third, the current one, from day 737444.
\<close>

theorem valid_from_not_increasing:
  "map (\<lambda>p. (p_policy_id p, p_version_number p, p_valid_from p, p_valid_to p,
             p_is_current_record p))
     (fst (projr (gen_policies_with_cdc w_cfg w_insureds w_agents (w_tape3, 0)))) =
   [(1, 1, 737424, Some 737434, False),
    (1, 2, 737514, Some 737524, False),
    (1, 3, 737444, None, True)]"
  by (simp add: gen_policies_with_cdc_def gen_policy_base_def gen_policy_version_def
      w_cfg_def w_insureds_def w_agents_def rng_defs Let_def w_tape3_def
      LOB_CODES_def POLICY_STATUSES_def SOURCE_SYSTEMS_def upt_rec)

section \<open>Claim transactions\<close>

lemma claim_txn_type_not_void:
  "fst (choice [RESERVE_SET, RESERVE_CHANGE, PAYMENT, RECOVERY, EXPENSE] g) \<noteq> VOID"
  using choice_mem [of "[RESERVE_SET, RESERVE_CHANGE, PAYMENT, RECOVERY, EXPENSE]" g]
  by auto

lemma randint_nonneg: "0 \<le> b \<Longrightarrow> 0 \<le> fst (randint 0 b g)"
  using randint_bounds [of 0 b g] by simp

lemma randint_pos: "1 \<le> b \<Longrightarrow> 0 < fst (randint 1 b g)"
  using randint_bounds [of 1 b g] by simp

lemma gen_claim_txn_step_cases:
  assumes "gen_claim_txn_step cfg claim txn_id g = (rows, txn_id', g', stop)"
  shows "(rows = [] \<and> txn_id' = txn_id \<and> stop) \<or>
     (\<exists>t. rows = [t] \<and> txn_id' = txn_id + 1 \<and> ct_transaction_id t = txn_id \<and>
        ct_claim_id t = c_claim_id claim \<and> ct_transaction_type t \<noteq> VOID) \<or>
     (\<exists>t v. rows = [t, v] \<and> txn_id' = txn_id + 2 \<and> \<not> stop \<and>
        ct_transaction_id t = txn_id \<and> ct_transaction_id v = txn_id + 1 \<and>
        ct_transaction_type t = PAYMENT \<and> ct_transaction_type v = VOID \<and>
        ct_claim_id t = c_claim_id claim \<and> ct_claim_id v = c_claim_id claim \<and>
        ct_void_of_transaction_id v = Some txn_id \<and> ct_amount v = - ct_amount t \<and>
        ct_transaction_date t < ct_transaction_date v \<and>
        ct_transaction_date v \<le> ct_posting_date v)"
  using assms
  by (auto simp: gen_claim_txn_step_def Let_def split_beta claim_txn_type_not_void
      randint_nonneg randint_pos split: if_splits)

lemma upt_append_upt: "a \<le> b \<Longrightarrow> b \<le> c \<Longrightarrow> [a..<b] @ [b..<c] = [a..<(c::nat)]"
  by (metis le_Suc_ex upt_add_eq_append)

lemma void_paired_mono: "set rows \<subseteq> set rows' \<Longrightarrow> void_paired rows t \<Longrightarrow> void_paired rows' t"
  unfolding void_paired_def by blast

lemma claim_txns_ok_Nil: "claim_txns_ok ids lo lo []"
  by (simp add: claim_txns_ok_def)

lemma claim_txns_ok_append:
  assumes "claim_txns_ok ids a b xs" and "claim_txns_ok ids b c ys"
  shows "claim_txns_ok ids a c (xs @ ys)"
proof -
  from assms have "map ct_transaction_id (xs @ ys) = [a..<c]" and "a \<le> c"
    by (auto simp: claim_txns_ok_def upt_append_upt)
  moreover have "ct_claim_id t \<in> ids \<and>
      (ct_transaction_type t = VOID \<longrightarrow> void_paired (xs @ ys) t)"
    if "t \<in> set (xs @ ys)" for t
  proof (cases "t \<in> set xs")
    case True
    with assms(1) show ?thesis
      using void_paired_mono [of xs "xs @ ys" t] by (auto simp: claim_txns_ok_def)
  next
    case False
    with that have "t \<in> set ys" by simp
    with assms(2) show ?thesis
      using void_paired_mono [of ys "xs @ ys" t] by (auto simp: claim_txns_ok_def)
  qed
  ultimately show ?thesis unfolding claim_txns_ok_def by blast
qed

lemma claim_txns_ok_mono: "claim_txns_ok ids a b xs \<Longrightarrow> ids \<subseteq> ids' \<Longrightarrow> claim_txns_ok ids' a b xs"
  unfolding claim_txns_ok_def by blast

lemma gen_claim_txn_step_ok:
  assumes "gen_claim_txn_step cfg claim txn_id g = (rows, txn_id', g', stop)"
  shows "claim_txns_ok {c_claim_id claim} txn_id txn_id' rows"
proof -
  from gen_claim_txn_step_cases [OF assms]
  consider "rows = []" "txn_id' = txn_id"
    | t where "rows = [t]" "txn_id' = txn_id + 1" "ct_transaction_id t = txn_id"
        "ct_claim_id t = c_claim_id claim" "ct_transaction_type t \<noteq> VOID"
    | t v where "rows = [t, v]" "txn_id' = txn_id + 2"
        "ct_transaction_id t = txn_id" "ct_transaction_id v = txn_id + 1"
        "ct_transaction_type t = PAYMENT" "ct_transaction_type v = VOID"
        "ct_claim_id t = c_claim_id claim" "ct_claim_id v = c_claim_id claim"
        "ct_void_of_transaction_id v = Some txn_id" "ct_amount v = - ct_amount t"
        "ct_transaction_date t < ct_transaction_date v"
        "ct_transaction_date v \<le> ct_posting_date v"
    by blast
  then show ?thesis
  proof cases
    case 1
    then show ?thesis by (simp add: claim_txns_ok_def)
  next
    case 2
    then show ?thesis by (simp add: claim_txns_ok_def)
  next
    case 3
    have "[txn_id..<txn_id + 2] = [txn_id, txn_id + 1]"
      by (simp add: upt_rec)
    with 3 show ?thesis
      by (auto simp: claim_txns_ok_def void_paired_def)
  qed
qed

lemma gen_claim_txns_inner_ok:
  "gen_claim_txns_inner cfg claim n txn_id g = (rows, txn_id', g', stop) \<Longrightarrow>
     claim_txns_ok {c_claim_id claim} txn_id txn_id' rows"
proof (induction n arbitrary: txn_id g rows txn_id' g' stop)
  case 0
  then show ?case by (simp add: claim_txns_ok_Nil)
next
  case (Suc n)
  obtain r1 t1 g1 s1 where step: "gen_claim_txn_step cfg claim txn_id g = (r1, t1, g1, s1)"
    by (cases "gen_claim_txn_step cfg claim txn_id g") auto
  note ok1 = gen_claim_txn_step_ok [OF step]
  show ?case
  proof (cases s1)
    case True
    with Suc.prems step ok1 show ?thesis by simp
  next
    case False
    obtain r2 t2 g2 s2 where rest: "gen_claim_txns_inner cfg claim n t1 g1 = (r2, t2, g2, s2)"
      by (cases "gen_claim_txns_inner cfg claim n t1 g1") auto
    from Suc.prems step rest False have "rows = r1 @ r2" "txn_id' = t2" by simp_all
    with claim_txns_ok_append [OF ok1 Suc.IH [OF rest]] show ?thesis by simp
  qed
qed

lemma gen_claim_txns_loop_ok:
  "gen_claim_txns_loop cfg claims txn_id g = (rows, g') \<Longrightarrow>
     \<exists>txn_id'. claim_txns_ok (c_claim_id ` set claims) txn_id txn_id' rows"
proof (induction claims arbitrary: txn_id g rows g')
  case Nil
  then show ?case using claim_txns_ok_Nil by auto
next
  case (Cons claim claims)
  obtain n g0 where n: "randint 1 10 g = (n, g0)" by (cases "randint 1 10 g")
  obtain r1 t1 g1 s1 where
    inner: "gen_claim_txns_inner cfg claim (nat n) txn_id g0 = (r1, t1, g1, s1)"
    by (cases "gen_claim_txns_inner cfg claim (nat n) txn_id g0") auto
  from gen_claim_txns_inner_ok [OF inner]
  have ok1: "claim_txns_ok (c_claim_id ` set (claim # claims)) txn_id t1 r1"
    by (rule claim_txns_ok_mono) simp
  show ?case
  proof (cases s1)
    case True
    with Cons.prems n inner have "rows = r1" by simp
    with ok1 show ?thesis by blast
  next
    case False
    obtain r2 g2 where rest: "gen_claim_txns_loop cfg claims t1 g1 = (r2, g2)"
      by (cases "gen_claim_txns_loop cfg claims t1 g1")
    from Cons.IH [OF rest] obtain t2 where "claim_txns_ok (c_claim_id ` set claims) t1 t2 r2" ..
    then have ok2: "claim_txns_ok (c_claim_id ` set (claim # claims)) t1 t2 r2"
      by (rule claim_txns_ok_mono) auto
    from Cons.prems n inner rest False have "rows = r1 @ r2" by simp
    with claim_txns_ok_append [OF ok1 ok2] show ?thesis by blast
  qed
qed

text \<open>
  Claim C3. Every claim transaction of type \<open>VOID\<close> names in \<open>void_of_transaction_id\<close> a
  transaction that exists, is the only one with that identifier, is a \<open>PAYMENT\<close> and belongs
  to the same claim; the amount of the \<open>VOID\<close> is the negation of the amount of that payment,
  so the two sum to zero; and
  \<open>posting_date(void) \<ge> transaction_date(void) \<ge> transaction_date(voided)\<close>.
\<close>

theorem void_nets_payment:
  assumes t: "t \<in> set (fst (gen_claim_transactions cfg claims g))"
    and v: "ct_transaction_type t = VOID"
  shows "\<exists>p \<in> set (fst (gen_claim_transactions cfg claims g)).
           ct_void_of_transaction_id t = Some (ct_transaction_id p) \<and>
           (\<forall>q \<in> set (fst (gen_claim_transactions cfg claims g)).
              ct_transaction_id q = ct_transaction_id p \<longrightarrow> q = p) \<and>
           ct_transaction_type p = PAYMENT \<and> ct_claim_id p = ct_claim_id t \<and>
           ct_amount t = - ct_amount p \<and> ct_amount p + ct_amount t = 0 \<and>
           ct_transaction_date p \<le> ct_transaction_date t \<and>
           ct_transaction_date t \<le> ct_posting_date t"
proof -
  define rows where "rows = fst (gen_claim_transactions cfg claims g)"
  obtain g' where run: "gen_claim_txns_loop cfg (get_active_claims claims) 1 g = (rows, g')"
    unfolding rows_def gen_claim_transactions_def Let_def
    by (cases "gen_claim_txns_loop cfg (get_active_claims claims) 1 g") auto
  from gen_claim_txns_loop_ok [OF run] obtain hi where
    ok: "claim_txns_ok (c_claim_id ` set (get_active_claims claims)) 1 hi rows" ..
  then have ids: "map ct_transaction_id rows = [1..<hi]" by (simp add: claim_txns_ok_def)
  then have "distinct (map ct_transaction_id rows)" by simp
  then have inj: "inj_on ct_transaction_id (set rows)" by (simp add: distinct_map)
  from ok t v have "void_paired rows t" unfolding rows_def claim_txns_ok_def by blast
  then obtain p where p: "p \<in> set rows"
    "ct_void_of_transaction_id t = Some (ct_transaction_id p)"
    "ct_transaction_type p = PAYMENT" "ct_claim_id p = ct_claim_id t"
    "ct_amount t = - ct_amount p"
    "ct_transaction_date p \<le> ct_transaction_date t"
    "ct_transaction_date t \<le> ct_posting_date t"
    unfolding void_paired_def by blast
  have "\<forall>q \<in> set rows. ct_transaction_id q = ct_transaction_id p \<longrightarrow> q = p"
    using inj p(1) by (auto dest: inj_onD)
  with p show ?thesis unfolding rows_def [symmetric] by auto
qed

lemma w_claim_txns_run:
  "fst (gen_claim_transactions w_cfg [w_claim] (w_tape_pay, 0)) = [w_payment, w_void]"
  by (simp add: gen_claim_transactions_def get_active_claims_def gen_claim_txn_step_def
      w_cfg_def w_claim_def w_tape_pay_def w_payment_def w_void_def rng_defs Let_def)

theorem void_nets_payment_witness:
  "w_void \<in> set (fst (gen_claim_transactions w_cfg [w_claim] (w_tape_pay, 0))) \<and>
   ct_transaction_type w_void = VOID \<and>
   w_payment \<in> set (fst (gen_claim_transactions w_cfg [w_claim] (w_tape_pay, 0))) \<and>
   ct_void_of_transaction_id w_void = Some (ct_transaction_id w_payment) \<and>
   ct_transaction_type w_payment = PAYMENT \<and> ct_claim_id w_payment = ct_claim_id w_void \<and>
   ct_amount w_void = - ct_amount w_payment \<and>
   ct_transaction_date w_payment \<le> ct_transaction_date w_void \<and>
   ct_transaction_date w_void \<le> ct_posting_date w_void"
proof -
  have mem: "w_void \<in> set (fst (gen_claim_transactions w_cfg [w_claim] (w_tape_pay, 0)))"
    unfolding w_claim_txns_run by simp
  have void: "ct_transaction_type w_void = VOID" by (simp add: w_void_def)
  from void_nets_payment [OF mem void] obtain p where
    p: "p \<in> set [w_payment, w_void]"
    "ct_void_of_transaction_id w_void = Some (ct_transaction_id p)"
    "ct_transaction_type p = PAYMENT" "ct_claim_id p = ct_claim_id w_void"
    "ct_amount w_void = - ct_amount p"
    "ct_transaction_date p \<le> ct_transaction_date w_void"
    "ct_transaction_date w_void \<le> ct_posting_date w_void"
    unfolding w_claim_txns_run by blast
  from p(1,3) void have "p = w_payment" by auto
  with p mem void show ?thesis unfolding w_claim_txns_run by simp
qed

section \<open>Premium transactions\<close>

lemma premium_txn_type_not_reversal:
  "fst (choice [WRITTEN, EARNED, UNEARNED, CEDED, RETURN, AUDIT, ENDORSEMENT, INSTALLMENT] g)
     \<noteq> REVERSAL"
  using choice_mem
    [of "[WRITTEN, EARNED, UNEARNED, CEDED, RETURN, AUDIT, ENDORSEMENT, INSTALLMENT]" g]
  by auto

lemma randint_upper: "0 \<le> b \<Longrightarrow> fst (randint 0 b g) \<le> b"
  using randint_bounds [of 0 b g] by simp

lemma gen_premium_txn_step_cases:
  assumes "gen_premium_txn_step cfg pol txn_id g = (rows, txn_id', g', stop)"
  shows "(rows = [] \<and> txn_id' = txn_id \<and> stop) \<or>
     (\<exists>t. rows = [t] \<and> txn_id' = txn_id + 1 \<and> pt_transaction_id t = txn_id \<and>
        pt_policy_id t = p_policy_id pol \<and> pt_transaction_type t \<noteq> REVERSAL \<and>
        premium_row_dates t) \<or>
     (\<exists>t v. rows = [t, v] \<and> txn_id' = txn_id + 2 \<and> \<not> stop \<and>
        pt_transaction_id t = txn_id \<and> pt_transaction_id v = txn_id + 1 \<and>
        pt_transaction_type t \<noteq> REVERSAL \<and> pt_transaction_type v = REVERSAL \<and>
        pt_policy_id t = p_policy_id pol \<and> pt_policy_id v = p_policy_id pol \<and>
        premium_row_dates t \<and> premium_row_dates v \<and>
        pt_reversal_of_transaction_id v = Some txn_id \<and> pt_amount v = - pt_amount t \<and>
        pt_effective_date v = pt_effective_date t \<and>
        pt_transaction_date t < pt_transaction_date v)"
proof -
  have le: "a - d \<le> a" "a - 90 \<le> a - d" if "0 \<le> d" "d \<le> 90" for a d :: int
    using that by simp_all
  have lt: "a - d < a + e" if "0 \<le> d" "0 < e" for a d e :: int
    using that by simp
  show ?thesis
    using assms
    by (auto simp: gen_premium_txn_step_def Let_def split_beta premium_txn_type_not_reversal
        premium_row_dates_def randint_nonneg randint_pos randint_upper le lt
        split: if_splits)
qed

lemma reversal_paired_mono:
  "set rows \<subseteq> set rows' \<Longrightarrow> reversal_paired rows t \<Longrightarrow> reversal_paired rows' t"
  unfolding reversal_paired_def by blast

lemma premium_txns_ok_Nil: "premium_txns_ok ids lo lo []"
  by (simp add: premium_txns_ok_def)

lemma premium_txns_ok_append:
  assumes "premium_txns_ok ids a b xs" and "premium_txns_ok ids b c ys"
  shows "premium_txns_ok ids a c (xs @ ys)"
proof -
  from assms have "map pt_transaction_id (xs @ ys) = [a..<c]" and "a \<le> c"
    by (auto simp: premium_txns_ok_def upt_append_upt)
  moreover have "pt_policy_id t \<in> ids \<and> premium_row_dates t \<and>
      (pt_transaction_type t = REVERSAL \<longrightarrow> reversal_paired (xs @ ys) t)"
    if "t \<in> set (xs @ ys)" for t
  proof (cases "t \<in> set xs")
    case True
    with assms(1) show ?thesis
      using reversal_paired_mono [of xs "xs @ ys" t] by (auto simp: premium_txns_ok_def)
  next
    case False
    with that have "t \<in> set ys" by simp
    with assms(2) show ?thesis
      using reversal_paired_mono [of ys "xs @ ys" t] by (auto simp: premium_txns_ok_def)
  qed
  ultimately show ?thesis unfolding premium_txns_ok_def by blast
qed

lemma premium_txns_ok_mono:
  "premium_txns_ok ids a b xs \<Longrightarrow> ids \<subseteq> ids' \<Longrightarrow> premium_txns_ok ids' a b xs"
  unfolding premium_txns_ok_def by blast

lemma gen_premium_txn_step_ok:
  assumes "gen_premium_txn_step cfg pol txn_id g = (rows, txn_id', g', stop)"
  shows "premium_txns_ok {p_policy_id pol} txn_id txn_id' rows"
proof -
  from gen_premium_txn_step_cases [OF assms]
  consider "rows = []" "txn_id' = txn_id"
    | t where "rows = [t]" "txn_id' = txn_id + 1" "pt_transaction_id t = txn_id"
        "pt_policy_id t = p_policy_id pol" "pt_transaction_type t \<noteq> REVERSAL"
        "premium_row_dates t"
    | t v where "rows = [t, v]" "txn_id' = txn_id + 2"
        "pt_transaction_id t = txn_id" "pt_transaction_id v = txn_id + 1"
        "pt_transaction_type t \<noteq> REVERSAL" "pt_transaction_type v = REVERSAL"
        "pt_policy_id t = p_policy_id pol" "pt_policy_id v = p_policy_id pol"
        "premium_row_dates t" "premium_row_dates v"
        "pt_reversal_of_transaction_id v = Some txn_id" "pt_amount v = - pt_amount t"
        "pt_effective_date v = pt_effective_date t"
        "pt_transaction_date t < pt_transaction_date v"
    by blast
  then show ?thesis
  proof cases
    case 1
    then show ?thesis by (simp add: premium_txns_ok_def)
  next
    case 2
    then show ?thesis by (simp add: premium_txns_ok_def)
  next
    case 3
    have "[txn_id..<txn_id + 2] = [txn_id, txn_id + 1]"
      by (simp add: upt_rec)
    with 3 show ?thesis
      by (auto simp: premium_txns_ok_def reversal_paired_def)
  qed
qed

lemma gen_premium_txns_inner_ok:
  "gen_premium_txns_inner cfg pol n txn_id g = (rows, txn_id', g', stop) \<Longrightarrow>
     premium_txns_ok {p_policy_id pol} txn_id txn_id' rows"
proof (induction n arbitrary: txn_id g rows txn_id' g' stop)
  case 0
  then show ?case by (simp add: premium_txns_ok_Nil)
next
  case (Suc n)
  obtain r1 t1 g1 s1 where step: "gen_premium_txn_step cfg pol txn_id g = (r1, t1, g1, s1)"
    by (cases "gen_premium_txn_step cfg pol txn_id g") auto
  note ok1 = gen_premium_txn_step_ok [OF step]
  show ?case
  proof (cases s1)
    case True
    with Suc.prems step ok1 show ?thesis by simp
  next
    case False
    obtain r2 t2 g2 s2 where rest: "gen_premium_txns_inner cfg pol n t1 g1 = (r2, t2, g2, s2)"
      by (cases "gen_premium_txns_inner cfg pol n t1 g1") auto
    from Suc.prems step rest False have "rows = r1 @ r2" "txn_id' = t2" by simp_all
    with premium_txns_ok_append [OF ok1 Suc.IH [OF rest]] show ?thesis by simp
  qed
qed

lemma gen_premium_txns_loop_ok:
  "gen_premium_txns_loop cfg pols txn_id g = (rows, g') \<Longrightarrow>
     \<exists>txn_id'. premium_txns_ok (p_policy_id ` set pols) txn_id txn_id' rows"
proof (induction pols arbitrary: txn_id g rows g')
  case Nil
  then show ?case using premium_txns_ok_Nil by auto
next
  case (Cons pol pols)
  obtain n g0 where n: "randint 1 8 g = (n, g0)" by (cases "randint 1 8 g")
  obtain r1 t1 g1 s1 where
    inner: "gen_premium_txns_inner cfg pol (nat n) txn_id g0 = (r1, t1, g1, s1)"
    by (cases "gen_premium_txns_inner cfg pol (nat n) txn_id g0") auto
  from gen_premium_txns_inner_ok [OF inner]
  have ok1: "premium_txns_ok (p_policy_id ` set (pol # pols)) txn_id t1 r1"
    by (rule premium_txns_ok_mono) simp
  show ?case
  proof (cases s1)
    case True
    with Cons.prems n inner have "rows = r1" by simp
    with ok1 show ?thesis by blast
  next
    case False
    obtain r2 g2 where rest: "gen_premium_txns_loop cfg pols t1 g1 = (r2, g2)"
      by (cases "gen_premium_txns_loop cfg pols t1 g1")
    from Cons.IH [OF rest] obtain t2 where "premium_txns_ok (p_policy_id ` set pols) t1 t2 r2" ..
    then have ok2: "premium_txns_ok (p_policy_id ` set (pol # pols)) t1 t2 r2"
      by (rule premium_txns_ok_mono) auto
    from Cons.prems n inner rest False have "rows = r1 @ r2" by simp
    with premium_txns_ok_append [OF ok1 ok2] show ?thesis by blast
  qed
qed

text \<open>
  Claim C6, amended. Every premium transaction has
  \<open>transaction_date \<le> accounting_date \<le> booking_date\<close>. A transaction that is neither a
  \<open>REVERSAL\<close> nor an \<open>ENDORSEMENT\<close> has \<open>effective_date = transaction_date\<close>; an
  \<open>ENDORSEMENT\<close> has its effective date 0 to 90 days before its transaction date; a
  \<open>REVERSAL\<close> carries the effective date of the transaction it reverses, which is before
  its own transaction date.
\<close>

theorem premium_dates_and_reversals:
  assumes t: "t \<in> set (fst (gen_premium_transactions cfg policies g))"
  shows "pt_transaction_date t \<le> pt_accounting_date t \<and>
     pt_accounting_date t \<le> pt_booking_date t \<and>
     (pt_transaction_type t \<noteq> REVERSAL \<and> pt_transaction_type t \<noteq> ENDORSEMENT \<longrightarrow>
        pt_effective_date t = pt_transaction_date t) \<and>
     (pt_transaction_type t = ENDORSEMENT \<longrightarrow>
        pt_transaction_date t - 90 \<le> pt_effective_date t \<and>
        pt_effective_date t \<le> pt_transaction_date t) \<and>
     (pt_transaction_type t = REVERSAL \<longrightarrow>
        pt_effective_date t < pt_transaction_date t \<and>
        (\<exists>p \<in> set (fst (gen_premium_transactions cfg policies g)).
           pt_reversal_of_transaction_id t = Some (pt_transaction_id p) \<and>
           pt_transaction_type p \<noteq> REVERSAL \<and>
           pt_effective_date t = pt_effective_date p \<and>
           pt_transaction_date p < pt_transaction_date t))"
proof -
  define rows where "rows = fst (gen_premium_transactions cfg policies g)"
  obtain g' where
    run: "gen_premium_txns_loop cfg (get_current_policies policies) 1 g = (rows, g')"
    unfolding rows_def gen_premium_transactions_def Let_def
    by (cases "gen_premium_txns_loop cfg (get_current_policies policies) 1 g") auto
  from gen_premium_txns_loop_ok [OF run] obtain hi where
    ok: "premium_txns_ok (p_policy_id ` set (get_current_policies policies)) 1 hi rows" ..
  from ok t have d: "premium_row_dates t"
    and r: "pt_transaction_type t = REVERSAL \<longrightarrow> reversal_paired rows t"
    unfolding rows_def premium_txns_ok_def by blast+
  from d r show ?thesis
    unfolding rows_def [symmetric] premium_row_dates_def reversal_paired_def by blast
qed

lemma w_premium_run:
  "fst (gen_premium_transactions w_cfg w_policies (w_tape, 0)) = [w_written, w_written_rev]"
  by (simp add: gen_premium_transactions_def get_current_policies_def
      gen_premium_txn_step_def w_policies_def w_policy_v1_def w_policy_v2_def
      w_written_def w_written_rev_def
      w_cfg_def w_tape_def rng_defs Let_def SOURCE_SYSTEMS_def)

lemma w_endorsement_run:
  "fst (gen_premium_transactions w_cfg w_policies (w_tape_end, 0))
     = [w_endorsement, w_endorsement_rev]"
  by (simp add: gen_premium_transactions_def get_current_policies_def
      gen_premium_txn_step_def w_policies_def w_policy_v1_def w_policy_v2_def
      w_endorsement_def w_endorsement_rev_def
      w_cfg_def w_tape_end_def rng_defs Let_def SOURCE_SYSTEMS_def)

theorem premium_dates_and_reversals_witness:
  "w_written \<in> set (fst (gen_premium_transactions w_cfg w_policies (w_tape, 0))) \<and>
   pt_transaction_type w_written \<noteq> REVERSAL \<and> pt_transaction_type w_written \<noteq> ENDORSEMENT \<and>
   pt_effective_date w_written = pt_transaction_date w_written \<and>
   pt_transaction_date w_written \<le> pt_accounting_date w_written \<and>
   pt_accounting_date w_written \<le> pt_booking_date w_written \<and>
   w_endorsement \<in> set (fst (gen_premium_transactions w_cfg w_policies (w_tape_end, 0))) \<and>
   pt_transaction_type w_endorsement = ENDORSEMENT \<and>
   pt_transaction_date w_endorsement - 90 \<le> pt_effective_date w_endorsement \<and>
   pt_effective_date w_endorsement \<le> pt_transaction_date w_endorsement \<and>
   w_endorsement_rev \<in> set (fst (gen_premium_transactions w_cfg w_policies (w_tape_end, 0))) \<and>
   pt_transaction_type w_endorsement_rev = REVERSAL \<and>
   pt_effective_date w_endorsement_rev < pt_transaction_date w_endorsement_rev \<and>
   pt_effective_date w_endorsement_rev = pt_effective_date w_endorsement"
proof -
  have m1: "w_written \<in> set (fst (gen_premium_transactions w_cfg w_policies (w_tape, 0)))"
    unfolding w_premium_run by simp
  have m2: "w_endorsement \<in> set (fst (gen_premium_transactions w_cfg w_policies (w_tape_end, 0)))"
    unfolding w_endorsement_run by simp
  have m3: "w_endorsement_rev \<in> set (fst (gen_premium_transactions w_cfg w_policies (w_tape_end, 0)))"
    unfolding w_endorsement_run by simp
  have t1: "pt_transaction_type w_written \<noteq> REVERSAL \<and> pt_transaction_type w_written \<noteq> ENDORSEMENT"
    by (simp add: w_written_def)
  have t2: "pt_transaction_type w_endorsement = ENDORSEMENT" by (simp add: w_endorsement_def)
  have t3: "pt_transaction_type w_endorsement_rev = REVERSAL" by (simp add: w_endorsement_rev_def)
  have e: "pt_effective_date w_endorsement_rev = pt_effective_date w_endorsement"
    by (simp add: w_endorsement_def w_endorsement_rev_def)
  from premium_dates_and_reversals [OF m1] premium_dates_and_reversals [OF m2]
    premium_dates_and_reversals [OF m3] m1 m2 m3 t1 t2 t3 e
  show ?thesis by blast
qed

text \<open>
  The claim as stated fails on the reversal of the written premium: its effective date is
  the day of the reversed transaction, one day before its own transaction date.
\<close>

theorem reversal_effective_date_differs:
  "w_written_rev \<in> set (fst (gen_premium_transactions w_cfg w_policies (w_tape, 0))) \<and>
   pt_transaction_type w_written_rev = REVERSAL \<and>
   pt_effective_date w_written_rev \<noteq> pt_transaction_date w_written_rev"
  unfolding w_premium_run by (simp add: w_written_rev_def)

section \<open>References of the derived entities\<close>

lemma gen_coverages_inner_policy:
  "gen_coverages_inner cfg pol n cov_id g = (rows, cov_id', g', stop) \<Longrightarrow>
     \<forall>c \<in> set rows. cov_policy_id c = p_policy_id pol"
proof (induction n arbitrary: cov_id g rows cov_id' g' stop)
  case 0
  then show ?case by simp
next
  case (Suc n)
  show ?case
  proof (cases "cov_id > NUM_COVERAGES cfg")
    case True
    with Suc.prems show ?thesis by simp
  next
    case False
    obtain c g1 where c: "gen_coverage pol cov_id g = (c, g1)"
      by (cases "gen_coverage pol cov_id g")
    obtain cs i2 g2 s2 where
      rest: "gen_coverages_inner cfg pol n (cov_id + 1) g1 = (cs, i2, g2, s2)"
      by (cases "gen_coverages_inner cfg pol n (cov_id + 1) g1") auto
    from c have "cov_policy_id c = p_policy_id pol"
      by (auto simp: gen_coverage_def Let_def split_beta)
    with Suc.prems False c rest Suc.IH [OF rest] show ?thesis by auto
  qed
qed

lemma gen_coverages_loop_policy:
  "gen_coverages_loop cfg pols cov_id g = (rows, g') \<Longrightarrow>
     \<forall>c \<in> set rows. cov_policy_id c \<in> p_policy_id ` set pols"
proof (induction pols arbitrary: cov_id g rows g')
  case Nil
  then show ?case by simp
next
  case (Cons pol pols)
  obtain n g0 where n: "randint 1 5 g = (n, g0)" by (cases "randint 1 5 g")
  obtain r1 i1 g1 s1 where
    inner: "gen_coverages_inner cfg pol (nat n) cov_id g0 = (r1, i1, g1, s1)"
    by (cases "gen_coverages_inner cfg pol (nat n) cov_id g0") auto
  note p1 = gen_coverages_inner_policy [OF inner]
  show ?case
  proof (cases s1)
    case True
    with Cons.prems n inner p1 show ?thesis by simp
  next
    case False
    obtain r2 g2 where rest: "gen_coverages_loop cfg pols i1 g1 = (r2, g2)"
      by (cases "gen_coverages_loop cfg pols i1 g1")
    from Cons.prems n inner rest False have "rows = r1 @ r2" by simp
    with p1 Cons.IH [OF rest] show ?thesis by auto
  qed
qed

lemma gen_claim_policy:
  "current \<noteq> [] \<Longrightarrow> c_policy_id (fst (gen_claim current i g)) \<in> p_policy_id ` set current"
  using choice_mem [of current g]
  by (simp add: gen_claim_def Let_def split_beta)

lemma gen_claims_loop_policy:
  "gen_claims_loop current ids g = Inr (claims, g') \<Longrightarrow>
     \<forall>c \<in> set claims. c_policy_id c \<in> p_policy_id ` set current"
proof (induction ids arbitrary: g claims g')
  case Nil
  then show ?case by simp
next
  case (Cons i ids)
  from Cons.prems have ne: "current \<noteq> []" by (auto split: if_splits)
  obtain c g1 where c: "gen_claim current i g = (c, g1)" by (cases "gen_claim current i g")
  from Cons.prems ne c obtain cs where
    rest: "gen_claims_loop current ids g1 = Inr (cs, g')" and claims: "claims = c # cs"
    by (auto split: sum.splits)
  from gen_claim_policy [OF ne, of i g] c
  have "c_policy_id c \<in> p_policy_id ` set current" by simp
  with Cons.IH [OF rest] claims show ?case by simp
qed

lemma gen_quote_bound:
  assumes "gen_quote cfg insureds agents i g = Inr (q, g')"
    and "qt_bound_policy_id q = Some b"
  shows "1 \<le> b \<and> b \<le> int (NUM_POLICIES cfg)"
proof -
  from assms(1) have ne: "insureds \<noteq> []" "agents \<noteq> []" "\<not> NUM_POLICIES cfg < 1"
    by (auto simp: gen_quote_def Let_def split_beta split: if_splits)
  have q: "q = fst (projr (gen_quote cfg insureds agents i g))" using assms(1) by simp
  from ne have le: "1 \<le> int (NUM_POLICIES cfg)" by simp
  have rb1: "1 \<le> fst (randint 1 (int (NUM_POLICIES cfg)) h)" for h
    using randint_bounds [OF le, of h] by simp
  have rb2: "fst (randint 1 (int (NUM_POLICIES cfg)) h) \<le> int (NUM_POLICIES cfg)" for h
    using randint_bounds [OF le, of h] by simp
  from assms(2) ne show ?thesis
    unfolding q
    by (auto simp: gen_quote_def Let_def split_beta maybe_null_def rb1 rb2 split: if_splits)
qed

lemma gen_quotes_loop_bound:
  "gen_quotes_loop cfg insureds agents ids g = Inr (quotes, g') \<Longrightarrow>
     \<forall>q \<in> set quotes. \<forall>b. qt_bound_policy_id q = Some b \<longrightarrow>
        1 \<le> b \<and> b \<le> int (NUM_POLICIES cfg)"
proof (induction ids arbitrary: g quotes g')
  case Nil
  then show ?case by simp
next
  case (Cons i ids)
  from Cons.prems obtain q g1 where q: "gen_quote cfg insureds agents i g = Inr (q, g1)"
    by (auto split: sum.splits)
  from Cons.prems q obtain qs where
    rest: "gen_quotes_loop cfg insureds agents ids g1 = Inr (qs, g')"
    and quotes: "quotes = q # qs"
    by (auto split: sum.splits)
  from gen_quote_bound [OF q] Cons.IH [OF rest] quotes show ?case by auto
qed

lemma sample_loop_subset:
  "k \<le> m \<Longrightarrow> m \<le> length pool \<Longrightarrow> set (fst (sample_loop pool m k g)) \<subseteq> set pool"
proof (induction k arbitrary: pool m g)
  case 0
  then show ?case by simp
next
  case (Suc k)
  obtain r g1 where r: "next_raw g = (r, g1)" by (cases "next_raw g")
  define j where "j = r mod m"
  define pool' where "pool' = pool[j := pool ! (m - 1)]"
  from Suc.prems have m: "0 < m" by simp
  then have j: "j < m" unfolding j_def by simp
  with Suc.prems have jl: "j < length pool" and ml: "m - 1 < length pool" by simp_all
  have sub: "set pool' \<subseteq> set pool"
    unfolding pool'_def using ml set_update_subset_insert [of pool j "pool ! (m - 1)"]
    by (auto simp: nth_mem)
  from Suc.prems have "k \<le> m - 1" "m - 1 \<le> length pool'"
    unfolding pool'_def by simp_all
  from Suc.IH [OF this, of g1] sub
  have "set (fst (sample_loop pool' (m - 1) k g1)) \<subseteq> set pool" by blast
  moreover have "pool ! j \<in> set pool" using jl by simp
  ultimately show ?case
    using r by (simp add: Let_def split_beta j_def pool'_def)
qed

lemma sample_subset: "k \<le> length population \<Longrightarrow> set (fst (sample population k g)) \<subseteq> set population"
  unfolding sample_def by (rule sample_loop_subset) simp_all

lemma gen_claim_notes_inner_entity:
  "gen_claim_notes_inner claim n note_id g = (rows, note_id', g') \<Longrightarrow>
     \<forall>x \<in> set rows. n_entity_type x = CLAIM \<and> n_entity_id x = c_claim_id claim"
proof (induction n arbitrary: note_id g rows note_id' g')
  case 0
  then show ?case by simp
next
  case (Suc n)
  obtain x g1 where x: "gen_claim_note claim note_id g = (x, g1)"
    by (cases "gen_claim_note claim note_id g")
  obtain xs i2 g2 where rest: "gen_claim_notes_inner claim n (note_id + 1) g1 = (xs, i2, g2)"
    by (cases "gen_claim_notes_inner claim n (note_id + 1) g1") auto
  from x have "n_entity_type x = CLAIM \<and> n_entity_id x = c_claim_id claim"
    by (auto simp: gen_claim_note_def Let_def split_beta)
  with Suc.prems x rest Suc.IH [OF rest] show ?case by auto
qed

lemma gen_claim_notes_loop_entity:
  "gen_claim_notes_loop claims note_id g = (rows, note_id', g') \<Longrightarrow>
     \<forall>x \<in> set rows. n_entity_type x = CLAIM \<and> n_entity_id x \<in> c_claim_id ` set claims"
proof (induction claims arbitrary: note_id g rows note_id' g')
  case Nil
  then show ?case by simp
next
  case (Cons claim claims)
  obtain n g0 where n: "randint 1 5 g = (n, g0)" by (cases "randint 1 5 g")
  obtain xs i1 g1 where inner: "gen_claim_notes_inner claim (nat n) note_id g0 = (xs, i1, g1)"
    by (cases "gen_claim_notes_inner claim (nat n) note_id g0") auto
  obtain ys i2 g2 where rest: "gen_claim_notes_loop claims i1 g1 = (ys, i2, g2)"
    by (cases "gen_claim_notes_loop claims i1 g1") auto
  from Cons.prems n inner rest have "rows = xs @ ys" by simp
  with gen_claim_notes_inner_entity [OF inner] Cons.IH [OF rest] show ?case by auto
qed

lemma gen_policy_notes_loop_entity:
  "gen_policy_notes_loop pols note_id g = (rows, note_id', g') \<Longrightarrow>
     \<forall>x \<in> set rows. n_entity_type x = POLICY \<and> n_entity_id x \<in> p_policy_id ` set pols"
proof (induction pols arbitrary: note_id g rows note_id' g')
  case Nil
  then show ?case by simp
next
  case (Cons pol pols)
  obtain x g1 where x: "gen_policy_note pol note_id g = (x, g1)"
    by (cases "gen_policy_note pol note_id g")
  obtain xs i2 g2 where rest: "gen_policy_notes_loop pols (note_id + 1) g1 = (xs, i2, g2)"
    by (cases "gen_policy_notes_loop pols (note_id + 1) g1") auto
  from x have "n_entity_type x = POLICY \<and> n_entity_id x = p_policy_id pol"
    by (auto simp: gen_policy_note_def Let_def split_beta)
  with Cons.prems x rest Cons.IH [OF rest] show ?case by auto
qed

lemma gen_unstructured_notes_entity:
  assumes x: "x \<in> set (fst (gen_unstructured_notes claims policies g))"
  shows "(n_entity_type x = CLAIM \<and> n_entity_id x \<in> c_claim_id ` set (get_active_claims claims)) \<or>
         (n_entity_type x = POLICY \<and>
            n_entity_id x \<in> p_policy_id ` set (get_current_policies policies))"
proof -
  define ac where "ac = get_active_claims claims"
  define cp where "cp = get_current_policies policies"
  obtain pc g1 where pc: "sample ac (min 1500 (length ac)) g = (pc, g1)"
    by (cases "sample ac (min 1500 (length ac)) g")
  obtain cn i2 g2 where cn: "gen_claim_notes_loop pc 1 g1 = (cn, i2, g2)"
    by (cases "gen_claim_notes_loop pc 1 g1") auto
  obtain pp g3 where pp: "sample cp (min 1000 (length cp)) g2 = (pp, g3)"
    by (cases "sample cp (min 1000 (length cp)) g2")
  obtain pn i4 g4 where pn: "gen_policy_notes_loop pp i2 g3 = (pn, i4, g4)"
    by (cases "gen_policy_notes_loop pp i2 g3") auto
  have rows: "fst (gen_unstructured_notes claims policies g) = cn @ pn"
    unfolding gen_unstructured_notes_def Let_def ac_def [symmetric] cp_def [symmetric]
    using pc cn pp pn by simp
  from sample_subset [of "min 1500 (length ac)" ac g] pc have s1: "set pc \<subseteq> set ac" by simp
  from sample_subset [of "min 1000 (length cp)" cp g2] pp have s2: "set pp \<subseteq> set cp" by simp
  from x rows have "x \<in> set cn \<or> x \<in> set pn" by simp
  then show ?thesis
  proof
    assume "x \<in> set cn"
    with gen_claim_notes_loop_entity [OF cn] s1 show ?thesis unfolding ac_def by blast
  next
    assume "x \<in> set pn"
    with gen_policy_notes_loop_entity [OF pn] s2 show ?thesis unfolding cp_def by blast
  qed
qed

lemma current_policy_ids:
  assumes run: "gen_policies_with_cdc cfg insureds agents g = Inr (policies, g')"
  shows "p_policy_id ` set (get_current_policies policies) = {1..NUM_POLICIES cfg}"
proof
  from gen_policies_ids [OF run]
  show "p_policy_id ` set (get_current_policies policies) \<subseteq> {1..NUM_POLICIES cfg}"
    by (auto simp: get_current_policies_def)
next
  show "{1..NUM_POLICIES cfg} \<subseteq> p_policy_id ` set (get_current_policies policies)"
  proof
    fix i assume "i \<in> {1..NUM_POLICIES cfg}"
    from gen_policies_current_row [OF run this] obtain cur where
      f: "filter (\<lambda>p. p_policy_id p = i \<and> p_is_current_record p) policies = [cur]"
      and c: "p_policy_id cur = i" "p_is_current_record cur" "\<not> p_is_deleted cur" by blast
    have "cur \<in> set (filter (\<lambda>p. p_policy_id p = i \<and> p_is_current_record p) policies)"
      unfolding f by simp
    then have "cur \<in> set policies" by simp
    with c have "cur \<in> set (get_current_policies policies)"
      by (simp add: get_current_policies_def)
    with c(1) show "i \<in> p_policy_id ` set (get_current_policies policies)" by auto
  qed
qed

text \<open>
  Claim C7. Let \<open>policies\<close> be the rows of the policy generator. Every coverage and every
  claim carries the identifier of a policy row that is current and not deleted; every
  \<open>bound_policy_id\<close> of a quote that is not null is such an identifier; every note is attached
  to such a policy or to a claim that is not deleted; and every claim transaction belongs to
  a claim that is not deleted. The quotes are generated with the same configuration but
  without the policy rows: their identifiers are drawn from \<open>1..NUM_POLICIES\<close>, each of which
  has its current row.
\<close>

theorem references_stay_in_current_sets:
  assumes run: "gen_policies_with_cdc cfg insureds agents g0 = Inr (policies, g0')"
  shows
    "(\<forall>c \<in> set (fst (gen_coverages cfg policies g1)).
        \<exists>p \<in> set policies. p_is_current_record p \<and> \<not> p_is_deleted p \<and>
           cov_policy_id c = p_policy_id p) \<and>
     (\<forall>cs g2'. gen_claims cfg policies g2 = Inr (cs, g2') \<longrightarrow>
        (\<forall>c \<in> set cs. \<exists>p \<in> set policies. p_is_current_record p \<and> \<not> p_is_deleted p \<and>
           c_policy_id c = p_policy_id p)) \<and>
     (\<forall>qs g3'. gen_quotes cfg insureds' agents' g3 = Inr (qs, g3') \<longrightarrow>
        (\<forall>q \<in> set qs. \<forall>b. qt_bound_policy_id q = Some b \<longrightarrow>
           (\<exists>p \<in> set policies. p_is_current_record p \<and> \<not> p_is_deleted p \<and>
              b = int (p_policy_id p)))) \<and>
     (\<forall>x \<in> set (fst (gen_unstructured_notes claims policies g4)).
        (n_entity_type x = POLICY \<and>
           (\<exists>p \<in> set policies. p_is_current_record p \<and> \<not> p_is_deleted p \<and>
              n_entity_id x = p_policy_id p)) \<or>
        (n_entity_type x = CLAIM \<and>
           (\<exists>c \<in> set claims. \<not> c_is_deleted c \<and> n_entity_id x = c_claim_id c))) \<and>
     (\<forall>t \<in> set (fst (gen_claim_transactions cfg claims g5)).
        \<exists>c \<in> set claims. \<not> c_is_deleted c \<and> ct_claim_id t = c_claim_id c)"
proof (intro conjI allI impI ballI)
  have cur: "i \<in> p_policy_id ` set (get_current_policies policies) \<Longrightarrow>
      \<exists>p \<in> set policies. p_is_current_record p \<and> \<not> p_is_deleted p \<and> i = p_policy_id p" for i
    by (auto simp: get_current_policies_def)
  have act: "i \<in> c_claim_id ` set (get_active_claims claims) \<Longrightarrow>
      \<exists>c \<in> set claims. \<not> c_is_deleted c \<and> i = c_claim_id c" for i
    by (auto simp: get_active_claims_def)
  {
    fix c assume c: "c \<in> set (fst (gen_coverages cfg policies g1))"
    obtain rows g' where r: "gen_coverages_loop cfg (get_current_policies policies) 1 g1 = (rows, g')"
      by (cases "gen_coverages_loop cfg (get_current_policies policies) 1 g1")
    with c have "c \<in> set rows" by (simp add: gen_coverages_def Let_def)
    with gen_coverages_loop_policy [OF r]
    have "cov_policy_id c \<in> p_policy_id ` set (get_current_policies policies)" by blast
    then show "\<exists>p \<in> set policies. p_is_current_record p \<and> \<not> p_is_deleted p \<and>
           cov_policy_id c = p_policy_id p" by (rule cur)
  }
  {
    fix cs g2' c
    assume "gen_claims cfg policies g2 = Inr (cs, g2')" and c: "c \<in> set cs"
    then have "gen_claims_loop (get_current_policies policies) [1..<NUM_CLAIMS cfg + 1] g2
        = Inr (cs, g2')" by (simp add: gen_claims_def Let_def)
    from gen_claims_loop_policy [OF this] c
    have "c_policy_id c \<in> p_policy_id ` set (get_current_policies policies)" by blast
    then show "\<exists>p \<in> set policies. p_is_current_record p \<and> \<not> p_is_deleted p \<and>
           c_policy_id c = p_policy_id p" by (rule cur)
  }
  {
    fix qs g3' q b
    assume "gen_quotes cfg insureds' agents' g3 = Inr (qs, g3')" and q: "q \<in> set qs"
      and b: "qt_bound_policy_id q = Some b"
    then have "gen_quotes_loop cfg insureds' agents' [1..<NUM_QUOTES cfg + 1] g3 = Inr (qs, g3')"
      by (simp add: gen_quotes_def)
    from gen_quotes_loop_bound [OF this] q b
    have bb: "1 \<le> b \<and> b \<le> int (NUM_POLICIES cfg)" by blast
    then have "nat b \<in> {1..NUM_POLICIES cfg}" by auto
    with current_policy_ids [OF run]
    have "nat b \<in> p_policy_id ` set (get_current_policies policies)" by simp
    from cur [OF this] obtain p where
      p: "p \<in> set policies" "p_is_current_record p" "\<not> p_is_deleted p"
      "nat b = p_policy_id p" by blast
    from p(4) bb have "b = int (p_policy_id p)" by linarith
    with p show "\<exists>p \<in> set policies. p_is_current_record p \<and> \<not> p_is_deleted p \<and>
              b = int (p_policy_id p)" by blast
  }
  {
    fix x assume "x \<in> set (fst (gen_unstructured_notes claims policies g4))"
    from gen_unstructured_notes_entity [OF this] cur act
    show "(n_entity_type x = POLICY \<and>
           (\<exists>p \<in> set policies. p_is_current_record p \<and> \<not> p_is_deleted p \<and>
              n_entity_id x = p_policy_id p)) \<or>
        (n_entity_type x = CLAIM \<and>
           (\<exists>c \<in> set claims. \<not> c_is_deleted c \<and> n_entity_id x = c_claim_id c))"
      by blast
  }
  {
    fix t assume t: "t \<in> set (fst (gen_claim_transactions cfg claims g5))"
    obtain rows g' where
      r: "gen_claim_txns_loop cfg (get_active_claims claims) 1 g5 = (rows, g')"
      by (cases "gen_claim_txns_loop cfg (get_active_claims claims) 1 g5")
    with t have "t \<in> set rows" by (simp add: gen_claim_transactions_def Let_def)
    with gen_claim_txns_loop_ok [OF r]
    have "ct_claim_id t \<in> c_claim_id ` set (get_active_claims claims)"
      unfolding claim_txns_ok_def by blast
    then show "\<exists>c \<in> set claims. \<not> c_is_deleted c \<and> ct_claim_id t = c_claim_id c"
      by (rule act)
  }
qed

lemma w_coverages_run:
  "map cov_policy_id (fst (gen_coverages w_cfg w_policies (w_tape, 0))) = [1]"
  by (simp add: gen_coverages_def get_current_policies_def gen_coverage_def
      w_policies_def w_policy_v1_def w_policy_v2_def COVERAGE_TYPES_def
      w_cfg_def w_tape_def rng_defs Let_def)

lemma w_claims_run:
  "\<exists>cs g'. gen_claims w_cfg w_policies (w_tape, 0) = Inr (cs, g') \<and>
     map c_policy_id cs = [1, 1]"
  by (simp add: gen_claims_def get_current_policies_def gen_claim_def
      w_policies_def w_policy_v1_def w_policy_v2_def CLAIM_STATUSES_def CLAIM_CAUSES_def
      w_cfg_def w_tape_def rng_defs Let_def SOURCE_SYSTEMS_def upt_rec)

lemma w_quotes_run:
  "\<exists>qs g'. gen_quotes w_cfg w_insureds w_agents (w_tape_q, 0) = Inr (qs, g') \<and>
     map qt_bound_policy_id qs = [Some 1, None]"
  by (simp add: gen_quotes_def gen_quote_def w_insureds_def w_agents_def LOB_CODES_def
      w_cfg_def w_tape_q_def rng_defs Let_def SOURCE_SYSTEMS_def upt_rec)

lemma w_notes_run:
  "map (\<lambda>x. (n_entity_type x, n_entity_id x))
     (fst (gen_unstructured_notes [w_claim] w_policies (w_tape, 0))) =
   [(CLAIM, 1), (POLICY, 1)]"
  by (simp add: gen_unstructured_notes_def get_current_policies_def get_active_claims_def
      gen_claim_note_def gen_policy_note_def sample_def
      w_policies_def w_policy_v1_def w_policy_v2_def w_claim_def
      w_tape_def rng_defs Let_def SOURCE_SYSTEMS_def)

theorem references_stay_in_current_sets_witness:
  "gen_policies_with_cdc w_cfg w_insureds w_agents (w_tape, 0) = Inr (w_policies, (w_tape, 41)) \<and>
   fst (gen_coverages w_cfg w_policies (w_tape, 0)) \<noteq> [] \<and>
   (\<exists>p \<in> set w_policies. p_is_current_record p \<and> \<not> p_is_deleted p \<and>
      cov_policy_id (hd (fst (gen_coverages w_cfg w_policies (w_tape, 0)))) = p_policy_id p) \<and>
   (\<exists>cs g'. gen_claims w_cfg w_policies (w_tape, 0) = Inr (cs, g') \<and> cs \<noteq> [] \<and>
      (\<exists>p \<in> set w_policies. p_is_current_record p \<and> \<not> p_is_deleted p \<and>
         c_policy_id (hd cs) = p_policy_id p)) \<and>
   (\<exists>qs g'. gen_quotes w_cfg w_insureds w_agents (w_tape_q, 0) = Inr (qs, g') \<and> qs \<noteq> [] \<and>
      qt_bound_policy_id (hd qs) = Some 1 \<and>
      (\<exists>p \<in> set w_policies. p_is_current_record p \<and> \<not> p_is_deleted p \<and>
         1 = int (p_policy_id p))) \<and>
   fst (gen_unstructured_notes [w_claim] w_policies (w_tape, 0)) \<noteq> [] \<and>
   n_entity_type (hd (fst (gen_unstructured_notes [w_claim] w_policies (w_tape, 0)))) = CLAIM \<and>
   (\<exists>c \<in> set [w_claim]. \<not> c_is_deleted c \<and>
      n_entity_id (hd (fst (gen_unstructured_notes [w_claim] w_policies (w_tape, 0))))
        = c_claim_id c) \<and>
   n_entity_type (last (fst (gen_unstructured_notes [w_claim] w_policies (w_tape, 0)))) = POLICY \<and>
   (\<exists>p \<in> set w_policies. p_is_current_record p \<and> \<not> p_is_deleted p \<and>
      n_entity_id (last (fst (gen_unstructured_notes [w_claim] w_policies (w_tape, 0))))
        = p_policy_id p) \<and>
   w_void \<in> set (fst (gen_claim_transactions w_cfg [w_claim] (w_tape_pay, 0))) \<and>
   (\<exists>c \<in> set [w_claim]. \<not> c_is_deleted c \<and> ct_claim_id w_void = c_claim_id c)"
proof -
  note inst = references_stay_in_current_sets [OF w_policies_run,
      of "(w_tape, 0)" "(w_tape, 0)" w_insureds w_agents "(w_tape_q, 0)" "[w_claim]"
         "(w_tape, 0)" "(w_tape_pay, 0)"]
  define covs where "covs = fst (gen_coverages w_cfg w_policies (w_tape, 0))"
  define nts where "nts = fst (gen_unstructured_notes [w_claim] w_policies (w_tape, 0))"
  have c1: "covs \<noteq> []" using w_coverages_run unfolding covs_def by auto
  then have "hd covs \<in> set covs" by simp
  with inst have c2: "\<exists>p \<in> set w_policies. p_is_current_record p \<and> \<not> p_is_deleted p \<and>
      cov_policy_id (hd covs) = p_policy_id p" unfolding covs_def by blast
  from w_claims_run obtain cs g' where
    cl: "gen_claims w_cfg w_policies (w_tape, 0) = Inr (cs, g')" and "map c_policy_id cs = [1, 1]"
    by iprover
  then have cl1: "cs \<noteq> []" by auto
  then have "hd cs \<in> set cs" by simp
  with inst cl have cl2: "\<exists>p \<in> set w_policies. p_is_current_record p \<and> \<not> p_is_deleted p \<and>
         c_policy_id (hd cs) = p_policy_id p" by blast
  from w_quotes_run obtain qs g'' where
    q: "gen_quotes w_cfg w_insureds w_agents (w_tape_q, 0) = Inr (qs, g'')"
    and qm: "map qt_bound_policy_id qs = [Some 1, None]" by iprover
  then have q1: "qs \<noteq> []" by auto
  with qm have q2: "qt_bound_policy_id (hd qs) = Some 1" by (cases qs) auto
  from q1 have "hd qs \<in> set qs" by simp
  with inst q q2 have q3: "\<exists>p \<in> set w_policies. p_is_current_record p \<and> \<not> p_is_deleted p \<and>
         1 = int (p_policy_id p)" by blast
  have nm: "map (\<lambda>x. (n_entity_type x, n_entity_id x)) nts = [(CLAIM, 1), (POLICY, 1)]"
    unfolding nts_def by (rule w_notes_run)
  then obtain a b where ab: "nts = [a, b]" by (cases nts; cases "tl nts") auto
  with nm have n1: "nts \<noteq> []" "n_entity_type (hd nts) = CLAIM"
    "n_entity_type (last nts) = POLICY" "hd nts \<in> set nts" "last nts \<in> set nts"
    by auto
  from inst n1(2,4) have n2: "\<exists>c \<in> set [w_claim]. \<not> c_is_deleted c \<and>
      n_entity_id (hd nts) = c_claim_id c" unfolding nts_def by force
  from inst n1(3,5) have n3: "\<exists>p \<in> set w_policies. p_is_current_record p \<and> \<not> p_is_deleted p \<and>
      n_entity_id (last nts) = p_policy_id p" unfolding nts_def by force
  have t1: "w_void \<in> set (fst (gen_claim_transactions w_cfg [w_claim] (w_tape_pay, 0)))"
    unfolding w_claim_txns_run by simp
  with inst have t2: "\<exists>c \<in> set [w_claim]. \<not> c_is_deleted c \<and> ct_claim_id w_void = c_claim_id c"
    by blast
  from w_policies_run c1 c2 cl cl1 cl2 q q1 q2 q3 n1 n2 n3 t1 t2
  show ?thesis unfolding covs_def nts_def by blast
qed

section \<open>The comparison rules of the harness\<close>











end
